theory Spec2Isabelle
  imports Main
begin

section \<open>Python values\<close>

text \<open>
  The program of \<^verbatim>\<open>api.py\<close> moves values decoded from JSON bodies into lists,
  dictionaries and data frames without computing on them. A decoded value is \<open>None\<close>,
  a \<open>bool\<close>, an \<open>int\<close>, a \<open>float\<close>, a \<open>str\<close>, a \<open>list\<close> or a \<open>dict\<close> with
  string keys. The program never inspects a float, so its payload is left
  uninterpreted. A \<open>dict\<close> is an association list in insertion order whose lookup
  returns the first binding of a key.
\<close>

typedecl pyfloat

datatype json =
    JNull
  | JBool bool
  | JInt int
  | JFloat pyfloat
  | JStr string
  | JArr "json list"
  | JObj "(string \<times> json) list"

text \<open>
  Exceptions. All but \<open>SystemExit\<close> derive from Python's \<open>Exception\<close>, so the
  handlers \<^verbatim>\<open>except HTTPError\<close> and \<^verbatim>\<open>except Exception\<close> of the
  program catch them; \<open>SystemExit\<close> carries the optional argument of
  \<^verbatim>\<open>sys.exit\<close>.
\<close>

datatype exn =
    HTTPError
  | ConnectionError
  | JSONDecodeError
  | KeyError
  | IndexError
  | TypeError
  | AttributeError
  | ValueError
  | SystemExit "nat option"

text \<open>Indexing a sequence of length \<open>n\<close> with a Python integer: negative indices
  count from the end, anything outside \<open>-n..n-1\<close> raises \<open>IndexError\<close>.\<close>

definition seq_index :: "'a list \<Rightarrow> int \<Rightarrow> exn + 'a" where
  "seq_index xs i =
     (if 0 \<le> i \<and> i < int (length xs) then Inr (xs ! nat i)
      else if i < 0 \<and> - int (length xs) \<le> i then Inr (xs ! nat (int (length xs) + i))
      else Inl IndexError)"

definition bool_index :: "bool \<Rightarrow> int" where
  "bool_index b = (if b then 1 else 0)"

text \<open>
  The subscription \<^verbatim>\<open>obj[key]\<close> on decoded values: a \<open>dict\<close> raises
  \<open>KeyError\<close> for a missing (hashable) key and \<open>TypeError\<close> for an unhashable one,
  a \<open>list\<close> or \<open>str\<close> accepts integers (and booleans, which are integers) only,
  and \<open>None\<close>, numbers and booleans are not subscriptable.
\<close>

fun py_getitem :: "json \<Rightarrow> json \<Rightarrow> exn + json" where
  "py_getitem (JObj kvs) (JStr k) =
     (case map_of kvs k of None \<Rightarrow> Inl KeyError | Some v \<Rightarrow> Inr v)"
| "py_getitem (JObj kvs) (JArr ks) = Inl TypeError"
| "py_getitem (JObj kvs) (JObj ks) = Inl TypeError"
| "py_getitem (JObj kvs) k = Inl KeyError"
| "py_getitem (JArr xs) (JInt i) = seq_index xs i"
| "py_getitem (JArr xs) (JBool b) = seq_index xs (bool_index b)"
| "py_getitem (JArr xs) k = Inl TypeError"
| "py_getitem (JStr s) (JInt i) = map_sum id (\<lambda>c. JStr [c]) (seq_index s i)"
| "py_getitem (JStr s) (JBool b) = map_sum id (\<lambda>c. JStr [c]) (seq_index s (bool_index b))"
| "py_getitem (JStr s) k = Inl TypeError"
| "py_getitem v k = Inl TypeError"

text \<open>A chain of subscriptions \<^verbatim>\<open>obj[k1][k2]...\<close>, evaluated left to right;
  the first one that raises ends the chain.\<close>

fun subscripts :: "json \<Rightarrow> json list \<Rightarrow> exn + json" where
  "subscripts v [] = Inr v"
| "subscripts v (k # ks) =
     (case py_getitem v k of Inl err \<Rightarrow> Inl err | Inr u \<Rightarrow> subscripts u ks)"

text \<open>\<^verbatim>\<open>str.lower\<close>, on the ASCII letters; any other character is kept.\<close>

definition lower_char :: "char \<Rightarrow> char" where
  "lower_char c =
     (case map_of (zip ''ABCDEFGHIJKLMNOPQRSTUVWXYZ'' ''abcdefghijklmnopqrstuvwxyz'') c of
        None \<Rightarrow> c | Some d \<Rightarrow> d)"

text \<open>\<^verbatim>\<open>species.lower()\<close> on a table cell: only a \<open>str\<close> has the method.\<close>

fun py_lower :: "json \<Rightarrow> exn + string" where
  "py_lower (JStr s) = Inr (map lower_char s)"
| "py_lower v = Inl AttributeError"

section \<open>The HTTP client\<close>

text \<open>
  The three remote services are the environment of the program. A request is
  identified by the parts the program interpolates into its URL or body: the
  accession, the lower-cased organism name with the gene cell, the submitted identifier
  list. A service answers a request issued after \<open>n\<close> earlier ones either not at all
  (\<^verbatim>\<open>requests\<close> raises a connection error) or with a status code and a body,
  which decodes as JSON or does not.
\<close>

datatype request =
    Get_protein string
  | Get_xref string json
  | Post_lookup "json list"

datatype response = Response nat "json option"

type_synonym service = "nat \<Rightarrow> request \<Rightarrow> response option"

text \<open>
  A data frame is a list of column labels and a list of rows, each row holding one cell
  per column. Data frames are mutable objects: the program state keeps them in a store
  and the program's variables hold references into it.
\<close>

record dataframe =
  columns :: "string list"
  rows :: "json list list"

type_synonym ref = nat

text \<open>The program state: the requests issued so far, the store of data frames and
  the files written. The lines the program prints are not part of it: printing decides
  nothing in the program.\<close>

record world =
  sent :: "request list"
  heap :: "dataframe list"
  files :: "string \<rightharpoonup> dataframe"

definition send :: "service \<Rightarrow> request \<Rightarrow> world \<Rightarrow> (exn + response) \<times> world" where
  "send svc req w =
     ((case svc (length (sent w)) req of None \<Rightarrow> Inl ConnectionError | Some r \<Rightarrow> Inr r),
      w\<lparr>sent := sent w @ [req]\<rparr>)"

text \<open>\<^verbatim>\<open>response.raise_for_status()\<close> raises for the status codes 400 to 599.\<close>

fun raise_for_status :: "response \<Rightarrow> exn + unit" where
  "raise_for_status (Response code body) =
     (if 400 \<le> code \<and> code < 600 then Inl HTTPError else Inr ())"

fun response_json :: "response \<Rightarrow> exn + json" where
  "response_json (Response code None) = Inl JSONDecodeError"
| "response_json (Response code (Some v)) = Inr v"

text \<open>The first three statements of every \<^verbatim>\<open>try\<close> block: issue the request,
  check its status, decode its body.\<close>

definition fetch_json :: "service \<Rightarrow> request \<Rightarrow> world \<Rightarrow> (exn + json) \<times> world" where
  "fetch_json svc req w =
     (case send svc req w of
        (Inl err, w') \<Rightarrow> (Inl err, w')
      | (Inr r, w') \<Rightarrow>
          (case raise_for_status r of
             Inl err \<Rightarrow> (Inl err, w')
           | Inr u \<Rightarrow> (response_json r, w')))"

section \<open>Data frames\<close>

text \<open>
  \<^verbatim>\<open>pd.DataFrame(data)\<close> for a list of dictionaries: the columns are the keys in
  order of first appearance, a row has the null value where its dictionary lacks a key;
  the empty list gives a frame without columns and rows. The null value of a frame is
  written \<open>JNull\<close>. Cells are stored as they are given; the conversions pandas applies
  to the element type of a column are outside the model.
\<close>

fun add_keys :: "string list \<Rightarrow> string list \<Rightarrow> string list" where
  "add_keys cs [] = cs"
| "add_keys cs (k # ks) = add_keys (if k \<in> set cs then cs else cs @ [k]) ks"

definition cell_of :: "(string \<times> json) list \<Rightarrow> string \<Rightarrow> json" where
  "cell_of d c = (case map_of d c of None \<Rightarrow> JNull | Some v \<Rightarrow> v)"

definition DataFrame :: "(string \<times> json) list list \<Rightarrow> dataframe" where
  "DataFrame data =
     (let cs = foldl add_keys [] (map (map fst) data)
      in \<lparr>columns = cs, rows = map (\<lambda>d. map (cell_of d) cs) data\<rparr>)"

text \<open>The position of a label in a list of labels.\<close>

fun position :: "string \<Rightarrow> string list \<Rightarrow> nat" where
  "position c [] = 0"
| "position c (x # xs) = (if x = c then 0 else Suc (position c xs))"

text \<open>\<^verbatim>\<open>df[label]\<close>: the cells of a column, \<open>KeyError\<close> for an unknown label.\<close>

definition column :: "dataframe \<Rightarrow> string \<Rightarrow> exn + json list" where
  "column df c =
     (if c \<in> set (columns df) then Inr (map (\<lambda>r. r ! position c (columns df)) (rows df))
      else Inl KeyError)"

text \<open>
  \<^verbatim>\<open>df[label] = values\<close> for a list of values: the list must have one value per row
  (\<open>ValueError\<close> otherwise), except that a frame without rows takes its rows from a
  non-empty list, with nulls in the other columns. An existing column is overwritten
  where it stands, a new one is appended on the right.
\<close>

definition put_cell :: "string list \<Rightarrow> string \<Rightarrow> json list \<Rightarrow> json \<Rightarrow> json list" where
  "put_cell cs c r v = (if c \<in> set cs then r[position c cs := v] else r @ [v])"

definition set_column :: "dataframe \<Rightarrow> string \<Rightarrow> json list \<Rightarrow> exn + dataframe" where
  "set_column df c vs =
     (let cs = columns df;
          cs' = (if c \<in> set cs then cs else cs @ [c])
      in if length vs = length (rows df)
         then Inr \<lparr>columns = cs', rows = map (\<lambda>(r, v). put_cell cs c r v) (zip (rows df) vs)\<rparr>
         else if rows df = []
         then Inr \<lparr>columns = cs',
                   rows = map (\<lambda>v. put_cell cs c (replicate (length cs) JNull) v) vs\<rparr>
         else Inl ValueError)"

text \<open>Modelled from the spec: the parts of the merge of pandas, which is defined below.
  Removing the entry at a position from a list, and the labels of a merged frame: those
  of the left frame followed by those of the right one without its key column; a label
  used on both sides apart from the key gets the suffix \<open>_x\<close> on the left and \<open>_y\<close>
  on the right.\<close>

definition drop_at :: "nat \<Rightarrow> 'a list \<Rightarrow> 'a list" where
  "drop_at i xs = take i xs @ drop (Suc i) xs"

definition merge_columns :: "string list \<Rightarrow> string list \<Rightarrow> string \<Rightarrow> string list" where
  "merge_columns lcs rcs key =
     map (\<lambda>c. if c \<noteq> key \<and> c \<in> set rcs then c @ ''_x'' else c) lcs @
     map (\<lambda>c. if c \<in> set lcs then c @ ''_y'' else c) (drop_at (position key rcs) rcs)"

text \<open>Modelled from the spec: the merged rows that a left row gives, one for every
  right row of the same key, or one with nulls in the right columns when there is
  none.\<close>

definition left_rows :: "nat \<Rightarrow> nat \<Rightarrow> nat \<Rightarrow> json list list \<Rightarrow> json list \<Rightarrow> json list list" where
  "left_rows lk rk rn rrows l =
     (case filter (\<lambda>r. r ! rk = l ! lk) rrows of
        [] \<Rightarrow> [l @ replicate (rn - 1) JNull]
      | ms \<Rightarrow> map (\<lambda>r. l @ drop_at rk r) ms)"

text \<open>Modelled from the spec: the merged rows of the right rows whose key occurs in no
  left row, with the key in the key column and nulls in the other left columns.\<close>

definition right_only_rows :: "nat \<Rightarrow> nat \<Rightarrow> nat \<Rightarrow> json list list \<Rightarrow> json list list \<Rightarrow> json list list" where
  "right_only_rows lk rk ln lrows rrows =
     map (\<lambda>r. (replicate ln JNull)[lk := r ! rk] @ drop_at rk r)
       (filter (\<lambda>r. r ! rk \<notin> set (map (\<lambda>l. l ! lk) lrows)) rrows)"

text \<open>
  Modelled from the spec: \<^verbatim>\<open>DataFrame.merge\<close> of pandas, which the script calls
  as \<^verbatim>\<open>prot_inf_df.merge(gene_inf_df, how="outer", on="Ensembl Gene ID")\<close> and whose
  code is not part of the repository. The spec (section 4.4 and glossary) describes it:
  an outer join of the two tables on the key column, where rows unmatched on either side
  are retained with nulls filling the missing side's columns. Both frames must have the
  key column (\<open>KeyError\<close> otherwise). Equal keys match, null keys included. pandas
  orders the rows of an outer join by key; the order of the merged rows is not part of
  the model, which keeps the left rows in their order and lets the unmatched right rows
  follow.
\<close>

definition merge_outer :: "dataframe \<Rightarrow> dataframe \<Rightarrow> string \<Rightarrow> exn + dataframe" where
  "merge_outer left right key =
     (if key \<in> set (columns left) \<and> key \<in> set (columns right)
      then
        let lk = position key (columns left);
            rk = position key (columns right)
        in Inr \<lparr>columns = merge_columns (columns left) (columns right) key,
                rows = concat (map (left_rows lk rk (length (columns right)) (rows right)) (rows left)) @
                       right_only_rows lk rk (length (columns left)) (rows left) (rows right)\<rparr>
      else Inl KeyError)"

text \<open>Creating a data frame object puts it into the store under a fresh reference.\<close>

definition alloc :: "dataframe \<Rightarrow> world \<Rightarrow> ref \<times> world" where
  "alloc df w = (length (heap w), w\<lparr>heap := heap w @ [df]\<rparr>)"

text \<open>\<^verbatim>\<open>df.to_excel(outfile, index=False)\<close> writes the header and the rows of the
  frame to the named file, replacing what the file held.\<close>

definition to_excel :: "ref \<Rightarrow> string \<Rightarrow> world \<Rightarrow> world" where
  "to_excel df outfile w = w\<lparr>files := (files w)(outfile \<mapsto> heap w ! df)\<rparr>"

section \<open>Stage 1: \<^verbatim>\<open>get_protein_information\<close>\<close>

text \<open>The dictionary \<^verbatim>\<open>protein_info\<close>; its entries are evaluated in the order
  they are written, and the first subscription that raises ends the evaluation.\<close>

definition protein_info :: "string \<Rightarrow> json \<Rightarrow> exn + (string \<times> json) list" where
  "protein_info accession body =
     (case subscripts body
             [JStr ''protein'', JStr ''recommendedName'', JStr ''fullName'', JStr ''value''] of
        Inl err \<Rightarrow> Inl err
      | Inr protein_name \<Rightarrow>
     (case subscripts body [JStr ''gene'', JInt 0, JStr ''name'', JStr ''value''] of
        Inl err \<Rightarrow> Inl err
      | Inr gene \<Rightarrow>
     (case subscripts body [JStr ''organism'', JStr ''names'', JInt 0, JStr ''value''] of
        Inl err \<Rightarrow> Inl err
      | Inr scientific \<Rightarrow>
     (case subscripts body [JStr ''organism'', JStr ''names'', JInt 1, JStr ''value''] of
        Inl err \<Rightarrow> Inl err
      | Inr common \<Rightarrow>
     (case subscripts body [JStr ''sequence'', JStr ''mass''] of
        Inl err \<Rightarrow> Inl err
      | Inr mass \<Rightarrow>
          Inr [(''Protein Accession'', JStr accession),
               (''Protein Name'', protein_name),
               (''Gene'', gene),
               (''Organism (Scientific)'', scientific),
               (''Organism (Common)'', common),
               (''Molecular Weight (Da)'', mass)])))))"

text \<open>The body of the \<^verbatim>\<open>try\<close> block for one accession, up to the dictionary.\<close>

definition protein_try ::
  "service \<Rightarrow> string \<Rightarrow> world \<Rightarrow> (exn + (string \<times> json) list) \<times> world" where
  "protein_try svc accession w =
     (case fetch_json svc (Get_protein accession) w of
        (Inl err, w') \<Rightarrow> (Inl err, w')
      | (Inr body, w') \<Rightarrow> (protein_info accession body, w'))"

text \<open>The \<^verbatim>\<open>for\<close> loop over the accessions: a dictionary that was built is appended
  to \<^verbatim>\<open>data\<close>, an exception is caught (by either handler) and the loop goes on.\<close>

fun protein_loop ::
  "service \<Rightarrow> string list \<Rightarrow> (string \<times> json) list list \<Rightarrow> world \<Rightarrow>
   (string \<times> json) list list \<times> world" where
  "protein_loop svc [] data w = (data, w)"
| "protein_loop svc (accession # accessions) data w =
     (case protein_try svc accession w of
        (Inl err, w') \<Rightarrow> protein_loop svc accessions data w'
      | (Inr info, w') \<Rightarrow> protein_loop svc accessions (data @ [info]) w')"

definition get_protein_information :: "service \<Rightarrow> string list \<Rightarrow> world \<Rightarrow> ref \<times> world" where
  "get_protein_information svc accessions w =
     (case protein_loop svc accessions [] w of
        (data, w') \<Rightarrow> alloc (DataFrame data) w')"

section \<open>Stage 2: \<^verbatim>\<open>get_ensembl_gene_ids\<close>\<close>

text \<open>The body of the \<^verbatim>\<open>try\<close> block for one row: the URL is formatted first
  (which calls \<^verbatim>\<open>species.lower()\<close>), then the request is issued and the identifier
  of the first entry of the decoded body is taken.\<close>

definition xref_try :: "service \<Rightarrow> json \<Rightarrow> json \<Rightarrow> world \<Rightarrow> (exn + json) \<times> world" where
  "xref_try svc species gene w =
     (case py_lower species of
        Inl err \<Rightarrow> (Inl err, w)
      | Inr name \<Rightarrow>
          (case fetch_json svc (Get_xref name gene) w of
             (Inl err, w') \<Rightarrow> (Inl err, w')
           | (Inr body, w') \<Rightarrow> (subscripts body [JInt 0, JStr ''id''], w')))"

text \<open>The \<^verbatim>\<open>for\<close> loop over the zipped columns: an identifier that was found is
  appended to \<^verbatim>\<open>ensembl_ids\<close>; a caught exception appends nothing.\<close>

fun xref_loop ::
  "service \<Rightarrow> (json \<times> json) list \<Rightarrow> json list \<Rightarrow> world \<Rightarrow> json list \<times> world" where
  "xref_loop svc [] ensembl_ids w = (ensembl_ids, w)"
| "xref_loop svc ((species, gene) # pairs) ensembl_ids w =
     (case xref_try svc species gene w of
        (Inl err, w') \<Rightarrow> xref_loop svc pairs ensembl_ids w'
      | (Inr ensembl_id, w') \<Rightarrow> xref_loop svc pairs (ensembl_ids @ [ensembl_id]) w')"

text \<open>The function reads two columns of the frame it is given (outside any
  \<^verbatim>\<open>try\<close>), runs the loop, assigns the collected list as a column of the same frame
  object and returns that object.\<close>

definition get_ensembl_gene_ids :: "service \<Rightarrow> ref \<Rightarrow> world \<Rightarrow> (exn + ref) \<times> world" where
  "get_ensembl_gene_ids svc df w =
     (case column (heap w ! df) ''Organism (Scientific)'' of
        Inl err \<Rightarrow> (Inl err, w)
      | Inr species_column \<Rightarrow>
     (case column (heap w ! df) ''Gene'' of
        Inl err \<Rightarrow> (Inl err, w)
      | Inr gene_column \<Rightarrow>
     (case xref_loop svc (zip species_column gene_column) [] w of
        (ensembl_ids, w') \<Rightarrow>
     (case set_column (heap w' ! df) ''Ensembl Gene ID'' ensembl_ids of
        Inl err \<Rightarrow> (Inl err, w')
      | Inr df' \<Rightarrow> (Inr df, w'\<lparr>heap := (heap w')[df := df']\<rparr>)))))"

section \<open>Stage 3: \<^verbatim>\<open>get_gene_data\<close>\<close>

text \<open>The dictionary \<^verbatim>\<open>gene_data\<close> for one identifier.\<close>

definition gene_data :: "json \<Rightarrow> json \<Rightarrow> exn + (string \<times> json) list" where
  "gene_data body ensembl_id =
     (case subscripts body [ensembl_id, JStr ''description''] of
        Inl err \<Rightarrow> Inl err
      | Inr description \<Rightarrow>
     (case subscripts body [ensembl_id, JStr ''seq_region_name''] of
        Inl err \<Rightarrow> Inl err
      | Inr region \<Rightarrow>
          Inr [(''Ensembl Gene ID'', ensembl_id),
               (''Description'', description),
               (''Seq Region Name'', region)]))"

text \<open>The \<^verbatim>\<open>for\<close> loop over the identifiers; it stands inside the \<^verbatim>\<open>try\<close>
  block, so the first identifier whose dictionary cannot be built ends it.\<close>

fun gene_loop ::
  "json \<Rightarrow> json list \<Rightarrow> (string \<times> json) list list \<Rightarrow> exn + (string \<times> json) list list" where
  "gene_loop body [] data = Inr data"
| "gene_loop body (ensembl_id # ensembl_ids) data =
     (case gene_data body ensembl_id of
        Inl err \<Rightarrow> Inl err
      | Inr row \<Rightarrow> gene_loop body ensembl_ids (data @ [row]))"

text \<open>The whole \<^verbatim>\<open>try\<close> block: one request with all identifiers, then the loop.\<close>

definition gene_try ::
  "service \<Rightarrow> json list \<Rightarrow> world \<Rightarrow> (exn + (string \<times> json) list list) \<times> world" where
  "gene_try svc ensembl_ids w =
     (case fetch_json svc (Post_lookup ensembl_ids) w of
        (Inl err, w') \<Rightarrow> (Inl err, w')
      | (Inr body, w') \<Rightarrow> (gene_loop body ensembl_ids [], w'))"

text \<open>Both handlers call \<^verbatim>\<open>sys.exit()\<close>, without an argument.\<close>

definition get_gene_data :: "service \<Rightarrow> json list \<Rightarrow> world \<Rightarrow> (exn + ref) \<times> world" where
  "get_gene_data svc ensembl_ids w =
     (case gene_try svc ensembl_ids w of
        (Inl err, w') \<Rightarrow> (Inl (SystemExit None), w')
      | (Inr data, w') \<Rightarrow> (case alloc (DataFrame data) w' of (df, w'') \<Rightarrow> (Inr df, w'')))"

section \<open>The script\<close>

text \<open>The statements under \<^verbatim>\<open>if __name__ == "__main__"\<close>, for any list of
  accessions. An exception that reaches the top level ends the run there.\<close>

definition run :: "service \<Rightarrow> string list \<Rightarrow> world \<Rightarrow> (exn + unit) \<times> world" where
  "run svc accessions w =
     (case get_protein_information svc accessions w of
        (prot_inf_df, w1) \<Rightarrow>
     (case get_ensembl_gene_ids svc prot_inf_df w1 of
        (Inl err, w2) \<Rightarrow> (Inl err, w2)
      | (Inr prot_inf_df, w2) \<Rightarrow>
     (case column (heap w2 ! prot_inf_df) ''Ensembl Gene ID'' of
        Inl err \<Rightarrow> (Inl err, w2)
      | Inr ensembl_ids \<Rightarrow>
     (case get_gene_data svc ensembl_ids w2 of
        (Inl err, w3) \<Rightarrow> (Inl err, w3)
      | (Inr gene_inf_df, w3) \<Rightarrow>
     (case merge_outer (heap w3 ! prot_inf_df) (heap w3 ! gene_inf_df) ''Ensembl Gene ID'' of
        Inl err \<Rightarrow> (Inl err, w3)
      | Inr merged \<Rightarrow>
     (case alloc merged w3 of
        (result, w4) \<Rightarrow> (Inr (), to_excel result ''protein_gene_analysis.xlsx'' w4)))))))"

definition main :: "service \<Rightarrow> world \<Rightarrow> (exn + unit) \<times> world" where
  "main svc w = run svc [''P12345'', ''Q8N726'', ''O00255''] w"

text \<open>The exit status of the interpreter: 0 when the script runs to its end, the
  argument of \<^verbatim>\<open>sys.exit\<close> (0 when there is none) for \<open>SystemExit\<close>, 1 for any other
  uncaught exception.\<close>

fun exit_status :: "exn + unit \<Rightarrow> nat" where
  "exit_status (Inr u) = 0"
| "exit_status (Inl (SystemExit None)) = 0"
| "exit_status (Inl (SystemExit (Some n))) = n"
| "exit_status (Inl err) = 1"

section \<open>Notions used to state the properties\<close>

text \<open>What a \<^verbatim>\<open>try\<close> block obtains from the reply to its request: the decoded
  body, or the exception of the first of the three steps that fails.\<close>

definition answer :: "response option \<Rightarrow> exn + json" where
  "answer reply =
     (case reply of
        None \<Rightarrow> Inl ConnectionError
      | Some r \<Rightarrow> (case raise_for_status r of Inl err \<Rightarrow> Inl err | Inr u \<Rightarrow> response_json r))"

text \<open>The values of the results that are not exceptions, in order.\<close>

fun rights :: "('e + 'a) list \<Rightarrow> 'a list" where
  "rights [] = []"
| "rights (Inl err # rs) = rights rs"
| "rights (Inr v # rs) = v # rights rs"

text \<open>The outcome of processing an accession whose request is the \<open>n\<close>-th one issued,
  and the outcomes for a list of accessions processed from request number \<open>n\<close> on.\<close>

definition protein_outcome :: "service \<Rightarrow> nat \<Rightarrow> string \<Rightarrow> exn + (string \<times> json) list" where
  "protein_outcome svc n accession =
     (case answer (svc n (Get_protein accession)) of
        Inl err \<Rightarrow> Inl err
      | Inr body \<Rightarrow> protein_info accession body)"

definition protein_outcomes ::
  "service \<Rightarrow> nat \<Rightarrow> string list \<Rightarrow> (exn + (string \<times> json) list) list" where
  "protein_outcomes svc n accessions =
     map (\<lambda>(k, accession). protein_outcome svc k accession) (enumerate n accessions)"

text \<open>The labels of the table of stage 1, in the order of the dictionary
  \<^verbatim>\<open>protein_info\<close>.\<close>

definition protein_columns :: "string list" where
  "protein_columns =
     [''Protein Accession'', ''Protein Name'', ''Gene'', ''Organism (Scientific)'',
      ''Organism (Common)'', ''Molecular Weight (Da)'']"

text \<open>
  Reading a decoded body the way the spec describes it: the named field of a mapping,
  the \<open>i\<close>-th entry of a list, and a path of such steps. Unlike \<open>subscripts\<close>, these
  never look into a string.
\<close>

definition dict_field :: "json \<Rightarrow> string \<Rightarrow> json option" where
  "dict_field v k = (case v of JObj kvs \<Rightarrow> map_of kvs k | _ \<Rightarrow> None)"

definition list_entry :: "json \<Rightarrow> nat \<Rightarrow> json option" where
  "list_entry v i =
     (case v of JArr xs \<Rightarrow> (if i < length xs then Some (xs ! i) else None) | _ \<Rightarrow> None)"

fun along :: "json \<Rightarrow> (string + nat) list \<Rightarrow> json option" where
  "along v [] = Some v"
| "along v (Inl k # steps) = Option.bind (dict_field v k) (\<lambda>u. along u steps)"
| "along v (Inr i # steps) = Option.bind (list_entry v i) (\<lambda>u. along u steps)"

text \<open>
  The ProteinRecord of the spec (section 3), and the record the spec (section 4.1)
  assembles from the reply for an accession: the full recommended protein name, the
  symbol of the first listed gene, the first and second entries of the list of organism
  names as scientific and common name, and the sequence mass.
\<close>

record ProteinRecord =
  pr_accession :: string
  display_name :: json
  gene_symbol :: json
  scientific_name :: json
  common_name :: json
  molecular_weight :: json

definition spec_protein_record :: "string \<Rightarrow> json \<Rightarrow> ProteinRecord option" where
  "spec_protein_record a body =
     Option.bind (along body [Inl ''protein'', Inl ''recommendedName'', Inl ''fullName'', Inl ''value''])
       (\<lambda>name.
     Option.bind (along body [Inl ''gene'', Inr 0, Inl ''name'', Inl ''value''])
       (\<lambda>gene.
     Option.bind (along body [Inl ''organism'', Inl ''names'', Inr 0, Inl ''value''])
       (\<lambda>scientific.
     Option.bind (along body [Inl ''organism'', Inl ''names'', Inr 1, Inl ''value''])
       (\<lambda>common.
     Option.bind (along body [Inl ''sequence'', Inl ''mass''])
       (\<lambda>mass.
          Some \<lparr>pr_accession = a, display_name = name, gene_symbol = gene,
                scientific_name = scientific, common_name = common,
                molecular_weight = mass\<rparr>)))))"

text \<open>The cells of the table row of a ProteinRecord.\<close>

definition record_cells :: "ProteinRecord \<Rightarrow> json list" where
  "record_cells pr =
     [JStr (pr_accession pr), display_name pr, gene_symbol pr, scientific_name pr,
      common_name pr, molecular_weight pr]"

text \<open>
  The outcome of the cross-reference lookup for an organism name and a gene cell whose
  request is the \<open>n\<close>-th one issued, and the outcomes for the rows of a table processed
  from request number \<open>n\<close> on.
\<close>

definition xref_outcome :: "service \<Rightarrow> nat \<Rightarrow> string \<Rightarrow> json \<Rightarrow> exn + json" where
  "xref_outcome svc n name gene =
     (case answer (svc n (Get_xref (map lower_char name) gene)) of
        Inl err \<Rightarrow> Inl err
      | Inr body \<Rightarrow> subscripts body [JInt 0, JStr ''id''])"

definition xref_outcomes :: "service \<Rightarrow> nat \<Rightarrow> (string \<times> json) list \<Rightarrow> (exn + json) list" where
  "xref_outcomes svc n pairs =
     map (\<lambda>(k, name, gene). xref_outcome svc k name gene) (enumerate n pairs)"

text \<open>A frame is well formed when every row has one cell per column, as pandas
  guarantees.\<close>

definition wf_frame :: "dataframe \<Rightarrow> bool" where
  "wf_frame df = list_all (\<lambda>r. length r = length (columns df)) (rows df)"

text \<open>
  The GeneAnnotation of the spec (section 3), and the annotation the spec (section 4.3)
  builds for a submitted identifier that appears as a key of the keyed response.
\<close>

record GeneAnnotation =
  ga_identifier :: json
  description :: json
  region_name :: json

definition spec_annotation :: "json \<Rightarrow> json \<Rightarrow> GeneAnnotation option" where
  "spec_annotation body ensembl_id =
     (case ensembl_id of
        JStr k \<Rightarrow>
          Option.bind (dict_field body k) (\<lambda>entry.
          Option.bind (dict_field entry ''description'') (\<lambda>d.
          Option.bind (dict_field entry ''seq_region_name'') (\<lambda>r.
            Some \<lparr>ga_identifier = ensembl_id, description = d, region_name = r\<rparr>)))
      | _ \<Rightarrow> None)"

definition annotation_cells :: "GeneAnnotation \<Rightarrow> json list" where
  "annotation_cells ga = [ga_identifier ga, description ga, region_name ga]"

definition gene_columns :: "string list" where
  "gene_columns = [''Ensembl Gene ID'', ''Description'', ''Seq Region Name'']"

text \<open>
  The batched call has succeeded when its reply has a good status and a body that
  decodes to the expected shape (spec, sections 4.3 and 6): a mapping from identifiers to
  entries that carry a description and a region name. An identifier is present in such
  a response when it is one of its keys.
\<close>

definition expected_shape :: "json \<Rightarrow> bool" where
  "expected_shape body =
     (case body of
        JObj kvs \<Rightarrow>
          list_all (\<lambda>(k, entry). dict_field entry ''description'' \<noteq> None \<and>
                                 dict_field entry ''seq_region_name'' \<noteq> None) kvs
      | _ \<Rightarrow> False)"

definition present :: "json \<Rightarrow> json \<Rightarrow> bool" where
  "present body ensembl_id =
     (case ensembl_id of JStr k \<Rightarrow> dict_field body k \<noteq> None | _ \<Rightarrow> False)"

section \<open>Example services\<close>

text \<open>Replies in the format of the three services, for the accessions of the script.
  The protein service knows two of them; the cross-reference service knows the genes
  of both; the annotation service knows both identifiers.\<close>

definition protein_body :: "string \<Rightarrow> string \<Rightarrow> string \<Rightarrow> string \<Rightarrow> int \<Rightarrow> json" where
  "protein_body name gene scientific common mass =
     JObj [(''accession'', JStr ''-''),
           (''protein'', JObj [(''recommendedName'', JObj [(''fullName'', JObj [(''value'', JStr name)])])]),
           (''gene'', JArr [JObj [(''name'', JObj [(''value'', JStr gene)])]]),
           (''organism'', JObj [(''taxonomy'', JInt 9986),
                                 (''names'', JArr [JObj [(''type'', JStr ''scientific''), (''value'', JStr scientific)],
                                                   JObj [(''type'', JStr ''common''), (''value'', JStr common)]])]),
           (''sequence'', JObj [(''length'', JInt 430), (''mass'', JInt mass)])]"

definition protein_service :: "string \<Rightarrow> response option" where
  "protein_service accession =
     (if accession = ''P12345''
      then Some (Response 200 (Some (protein_body ''Aspartate aminotransferase, mitochondrial''
                   ''GOT2'' ''Oryctolagus cuniculus'' ''Rabbit'' 47409)))
      else if accession = ''O00255''
      then Some (Response 200 (Some (protein_body ''Menin'' ''MEN1'' ''Homo sapiens'' ''Human'' 68023)))
      else Some (Response 404 None))"

definition xref_service :: "string \<Rightarrow> json \<Rightarrow> response option" where
  "xref_service species gene =
     (if species = ''oryctolagus cuniculus'' \<and> gene = JStr ''GOT2''
      then Some (Response 200 (Some (JArr [JObj [(''type'', JStr ''gene''), (''id'', JStr ''ENSOCUG00000012296'')]])))
      else if species = ''homo sapiens'' \<and> gene = JStr ''MEN1''
      then Some (Response 200 (Some (JArr [JObj [(''type'', JStr ''gene''), (''id'', JStr ''ENSG00000133895'')]])))
      else Some (Response 400 None))"

definition lookup_body :: json where
  "lookup_body =
     JObj [(''ENSOCUG00000012296'',
              JObj [(''description'', JStr ''glutamic-oxaloacetic transaminase 2''),
                    (''seq_region_name'', JStr ''5'')]),
           (''ENSG00000133895'',
              JObj [(''description'', JStr ''menin 1''), (''seq_region_name'', JStr ''11'')])]"

definition good_service :: service where
  "good_service n req =
     (case req of
        Get_protein accession \<Rightarrow> protein_service accession
      | Get_xref species gene \<Rightarrow> xref_service species gene
      | Post_lookup ensembl_ids \<Rightarrow> Some (Response 200 (Some lookup_body)))"

text \<open>A cross-reference service that does not know the gene \<open>MEN1\<close>, and an
  annotation service that is out of order; the other services as above.\<close>

definition xref_gap_service :: service where
  "xref_gap_service n req =
     (case req of
        Get_xref species gene \<Rightarrow>
          (if gene = JStr ''MEN1'' then Some (Response 404 None) else xref_service species gene)
      | _ \<Rightarrow> good_service n req)"

definition lookup_down_service :: service where
  "lookup_down_service n req =
     (case req of
        Post_lookup ensembl_ids \<Rightarrow> Some (Response 503 None)
      | _ \<Rightarrow> good_service n req)"

text \<open>The state before the script starts: nothing sent, no data frame, no file.\<close>

definition world0 :: world where
  "world0 = \<lparr>sent = [], heap = [], files = Map.empty\<rparr>"

text \<open>The table and the state after stage 1 of the script with \<open>good_service\<close>, and
  after stage 2.\<close>

definition example_table :: dataframe where
  "example_table =
     \<lparr>columns = protein_columns,
      rows = [[JStr ''P12345'', JStr ''Aspartate aminotransferase, mitochondrial'', JStr ''GOT2'',
               JStr ''Oryctolagus cuniculus'', JStr ''Rabbit'', JInt 47409],
              [JStr ''O00255'', JStr ''Menin'', JStr ''MEN1'', JStr ''Homo sapiens'',
               JStr ''Human'', JInt 68023]]\<rparr>"

definition world1 :: world where
  "world1 =
     \<lparr>sent = [Get_protein ''P12345'', Get_protein ''Q8N726'', Get_protein ''O00255''],
      heap = [example_table],
      files = Map.empty\<rparr>"

definition example_xref_table :: dataframe where
  "example_xref_table =
     \<lparr>columns = protein_columns @ [''Ensembl Gene ID''],
      rows = [[JStr ''P12345'', JStr ''Aspartate aminotransferase, mitochondrial'', JStr ''GOT2'',
               JStr ''Oryctolagus cuniculus'', JStr ''Rabbit'', JInt 47409,
               JStr ''ENSOCUG00000012296''],
              [JStr ''O00255'', JStr ''Menin'', JStr ''MEN1'', JStr ''Homo sapiens'',
               JStr ''Human'', JInt 68023, JStr ''ENSG00000133895'']]\<rparr>"

definition world2 :: world where
  "world2 =
     \<lparr>sent = [Get_protein ''P12345'', Get_protein ''Q8N726'', Get_protein ''O00255'',
              Get_xref ''oryctolagus cuniculus'' (JStr ''GOT2''),
              Get_xref ''homo sapiens'' (JStr ''MEN1'')],
      heap = [example_xref_table],
      files = Map.empty\<rparr>"

text \<open>The tables of the merge scenario of the spec (section 8): cross-reference rows
  with the identifiers A, B, C and annotation rows with the identifiers B, C, D.\<close>

definition crossref_ABC :: dataframe where
  "crossref_ABC =
     \<lparr>columns = protein_columns @ [''Ensembl Gene ID''],
      rows = [[JStr ''P1'', JStr ''protein 1'', JStr ''G1'', JStr ''Homo sapiens'', JStr ''Human'',
               JInt 101, JStr ''A''],
              [JStr ''P2'', JStr ''protein 2'', JStr ''G2'', JStr ''Homo sapiens'', JStr ''Human'',
               JInt 102, JStr ''B''],
              [JStr ''P3'', JStr ''protein 3'', JStr ''G3'', JStr ''Homo sapiens'', JStr ''Human'',
               JInt 103, JStr ''C'']]\<rparr>"

definition annotation_BCD :: dataframe where
  "annotation_BCD =
     \<lparr>columns = gene_columns,
      rows = [[JStr ''B'', JStr ''gene b'', JStr ''2''],
              [JStr ''C'', JStr ''gene c'', JStr ''3''],
              [JStr ''D'', JStr ''gene d'', JStr ''4'']]\<rparr>"

text \<open>
  The outer join of the spec (section 4.4 and glossary), as a relation between two
  tables, a key label and a merged table: every left row is the left part of a merged
  row; every right row is the key cell and the right part of a merged row; a left row
  whose key matches no right row is merged with nulls in the right columns; a right row
  whose key matches no left row is merged with nulls in the left columns but the key.
\<close>

definition spec_outer_join :: "dataframe \<Rightarrow> dataframe \<Rightarrow> string \<Rightarrow> dataframe \<Rightarrow> bool" where
  "spec_outer_join left right key merged =
     ((\<forall>l \<in> set (rows left). \<exists>m \<in> set (rows merged). take (length (columns left)) m = l) \<and>
      (\<forall>r \<in> set (rows right). \<exists>m \<in> set (rows merged).
         m ! position key (columns left) = r ! position key (columns right) \<and>
         drop (length (columns left)) m = drop_at (position key (columns right)) r) \<and>
      (\<forall>l \<in> set (rows left).
         (\<forall>r \<in> set (rows right).
            r ! position key (columns right) \<noteq> l ! position key (columns left)) \<longrightarrow>
         l @ replicate (length (columns right) - 1) JNull \<in> set (rows merged)) \<and>
      (\<forall>r \<in> set (rows right).
         (\<forall>l \<in> set (rows left).
            l ! position key (columns left) \<noteq> r ! position key (columns right)) \<longrightarrow>
         (replicate (length (columns left)) JNull)
            [position key (columns left) := r ! position key (columns right)] @
         drop_at (position key (columns right)) r \<in> set (rows merged)))"

text \<open>The table of stage 3 and the state after it in the script with
  \<open>good_service\<close>, the merged table, and the merged table of the merge scenario.\<close>

definition example_gene_table :: dataframe where
  "example_gene_table =
     \<lparr>columns = gene_columns,
      rows = [[JStr ''ENSOCUG00000012296'', JStr ''glutamic-oxaloacetic transaminase 2'', JStr ''5''],
              [JStr ''ENSG00000133895'', JStr ''menin 1'', JStr ''11'']]\<rparr>"

definition world3 :: world where
  "world3 =
     \<lparr>sent = [Get_protein ''P12345'', Get_protein ''Q8N726'', Get_protein ''O00255'',
              Get_xref ''oryctolagus cuniculus'' (JStr ''GOT2''),
              Get_xref ''homo sapiens'' (JStr ''MEN1''),
              Post_lookup [JStr ''ENSOCUG00000012296'', JStr ''ENSG00000133895'']],
      heap = [example_xref_table, example_gene_table],
      files = Map.empty\<rparr>"

definition example_merged :: dataframe where
  "example_merged =
     \<lparr>columns = protein_columns @ gene_columns,
      rows = [[JStr ''P12345'', JStr ''Aspartate aminotransferase, mitochondrial'', JStr ''GOT2'',
               JStr ''Oryctolagus cuniculus'', JStr ''Rabbit'', JInt 47409,
               JStr ''ENSOCUG00000012296'', JStr ''glutamic-oxaloacetic transaminase 2'',
               JStr ''5''],
              [JStr ''O00255'', JStr ''Menin'', JStr ''MEN1'', JStr ''Homo sapiens'',
               JStr ''Human'', JInt 68023, JStr ''ENSG00000133895'', JStr ''menin 1'',
               JStr ''11'']]\<rparr>"

definition merged_ABCD :: dataframe where
  "merged_ABCD =
     \<lparr>columns = protein_columns @ gene_columns,
      rows = [[JStr ''P1'', JStr ''protein 1'', JStr ''G1'', JStr ''Homo sapiens'',
               JStr ''Human'', JInt 101, JStr ''A'', JNull, JNull],
              [JStr ''P2'', JStr ''protein 2'', JStr ''G2'', JStr ''Homo sapiens'',
               JStr ''Human'', JInt 102, JStr ''B'', JStr ''gene b'', JStr ''2''],
              [JStr ''P3'', JStr ''protein 3'', JStr ''G3'', JStr ''Homo sapiens'',
               JStr ''Human'', JInt 103, JStr ''C'', JStr ''gene c'', JStr ''3''],
              [JNull, JNull, JNull, JNull, JNull, JNull, JStr ''D'', JStr ''gene d'',
               JStr ''4'']]\<rparr>"

lemmas eval_defs =
  run_def main_def get_protein_information_def protein_try_def protein_info_def
  get_ensembl_gene_ids_def xref_try_def get_gene_data_def gene_try_def gene_data_def
  fetch_json_def send_def alloc_def to_excel_def
  DataFrame_def cell_of_def column_def set_column_def put_cell_def
  merge_outer_def merge_columns_def left_rows_def right_only_rows_def drop_at_def
  seq_index_def bool_index_def lower_char_def
  protein_body_def protein_service_def xref_service_def lookup_body_def good_service_def
  xref_gap_service_def lookup_down_service_def world0_def protein_columns_def
  example_table_def world1_def example_xref_table_def world2_def gene_columns_def

section \<open>The HTTP client: what a request does\<close>

lemma fetch_json_eq:
  "fetch_json svc req w = (answer (svc (length (sent w)) req), w\<lparr>sent := sent w @ [req]\<rparr>)"
  by (simp add: fetch_json_def send_def answer_def split: option.splits sum.splits)

section \<open>Data frames built from dictionaries with the same keys\<close>

lemma add_keys_known: "set ks \<subseteq> set cs \<Longrightarrow> add_keys cs ks = cs"
  by (induction ks arbitrary: cs) auto

lemma add_keys_fresh: "distinct (cs @ ks) \<Longrightarrow> add_keys cs ks = cs @ ks"
  by (induction ks arbitrary: cs) auto

lemma foldl_add_keys_known:
  "\<forall>ks \<in> set kss. set ks \<subseteq> set cs \<Longrightarrow> foldl add_keys cs kss = cs"
  by (induction kss) (auto simp: add_keys_known)

lemma cells_of_own_keys:
  assumes "distinct (map fst d)"
  shows "map (cell_of d) (map fst d) = map snd d"
proof -
  have "cell_of d (fst p) = snd p" if "p \<in> set d" for p
  proof -
    have "map_of d (fst p) = Some (snd p)"
      using that assms by (intro map_of_is_SomeI) simp_all
    then show ?thesis by (simp add: cell_of_def)
  qed
  then show ?thesis by (simp add: comp_def)
qed

lemma DataFrame_uniform:
  assumes "\<forall>d \<in> set data. map fst d = ks" and "distinct ks"
  shows "DataFrame data = \<lparr>columns = (if data = [] then [] else ks), rows = map (map snd) data\<rparr>"
proof (cases data)
  case Nil
  then show ?thesis by (simp add: DataFrame_def)
next
  case (Cons d ds)
  have k: "foldl add_keys [] (map (map fst) data) = ks"
    using assms by (simp add: Cons add_keys_fresh foldl_add_keys_known)
  have "map (\<lambda>d. map (cell_of d) ks) data = map (map snd) data"
    using assms cells_of_own_keys by (intro map_cong) auto
  then show ?thesis using Cons k by (simp add: DataFrame_def)
qed

lemma length_rights: "length (rights rs) = length (filter (\<lambda>r. \<not> isl r) rs)"
  by (induction rs rule: rights.induct) simp_all

lemma length_rights_le: "length (rights rs) \<le> length rs"
  by (induction rs rule: rights.induct) simp_all

lemma set_rights: "set (rights rs) = {v. Inr v \<in> set rs}"
  by (induction rs rule: rights.induct) auto

section \<open>Stage 1\<close>

lemma protein_try_eq:
  "protein_try svc a w =
     (protein_outcome svc (length (sent w)) a, w\<lparr>sent := sent w @ [Get_protein a]\<rparr>)"
  by (simp add: protein_try_def fetch_json_eq protein_outcome_def split: sum.splits)

lemma protein_outcomes_Cons:
  "protein_outcomes svc n (a # as) = protein_outcome svc n a # protein_outcomes svc (Suc n) as"
  by (simp add: protein_outcomes_def)

lemma protein_loop_eq:
  "protein_loop svc accs data w =
     (data @ rights (protein_outcomes svc (length (sent w)) accs),
      w\<lparr>sent := sent w @ map Get_protein accs\<rparr>)"
proof (induction accs arbitrary: data w)
  case Nil
  show ?case by (simp add: protein_outcomes_def)
next
  case (Cons a accs)
  show ?case
    by (cases "protein_outcome svc (length (sent w)) a")
       (simp_all add: protein_try_eq Cons.IH protein_outcomes_Cons)
qed

lemma protein_info_keys: "protein_info a body = Inr info \<Longrightarrow> map fst info = protein_columns"
  by (auto simp: protein_info_def protein_columns_def split: sum.splits)

lemma protein_info_accession: "protein_info a body = Inr info \<Longrightarrow> hd (map snd info) = JStr a"
  by (auto simp: protein_info_def split: sum.splits)

lemma protein_outcome_keys:
  "protein_outcome svc n a = Inr info \<Longrightarrow> map fst info = protein_columns"
  by (auto simp: protein_outcome_def protein_info_keys split: sum.splits)

lemma protein_outcome_accession:
  "protein_outcome svc n a = Inr info \<Longrightarrow> hd (map snd info) = JStr a"
  by (auto simp: protein_outcome_def protein_info_accession split: sum.splits)

lemma protein_outcomes_keys:
  "info \<in> set (rights (protein_outcomes svc n accs)) \<Longrightarrow> map fst info = protein_columns"
  by (auto simp: set_rights protein_outcomes_def dest: protein_outcome_keys [OF sym])

lemma distinct_protein_columns: "distinct protein_columns"
  by (simp add: protein_columns_def)

text \<open>The table of stage 1 in closed form.\<close>

lemma get_protein_information_eq:
  "get_protein_information svc accs w =
     (length (heap w),
      w\<lparr>sent := sent w @ map Get_protein accs,
        heap := heap w @
          [\<lparr>columns = (if rights (protein_outcomes svc (length (sent w)) accs) = [] then []
                        else protein_columns),
            rows = map (map snd) (rights (protein_outcomes svc (length (sent w)) accs))\<rparr>]\<rparr>)"
proof -
  have "DataFrame (rights (protein_outcomes svc (length (sent w)) accs)) =
        \<lparr>columns = (if rights (protein_outcomes svc (length (sent w)) accs) = [] then []
                     else protein_columns),
         rows = map (map snd) (rights (protein_outcomes svc (length (sent w)) accs))\<rparr>"
    by (intro DataFrame_uniform ballI protein_outcomes_keys distinct_protein_columns)
  then show ?thesis
    by (simp add: get_protein_information_def protein_loop_eq alloc_def)
qed

lemma accessions_of_rights:
  "map (hd \<circ> map snd) (rights (map (\<lambda>(k, a). protein_outcome svc k a) xs)) =
   map (JStr \<circ> snd) (filter (\<lambda>(k, a). \<not> isl (protein_outcome svc k a)) xs)"
proof (induction xs)
  case Nil
  show ?case by simp
next
  case (Cons x xs)
  obtain k a where x: "x = (k, a)" by (cases x)
  show ?case
    using Cons.IH
    by (cases "protein_outcome svc k a") (simp_all add: x protein_outcome_accession)
qed

text \<open>
  C3. The table returned by \<^verbatim>\<open>get_protein_information\<close> has one row for each
  accession whose processing raised no exception and none for the others: its rows are
  the values of the dictionaries built, in the order of the accessions; their number is
  the number of successful accessions, at most the number of accessions; the accession
  cells are the successful accessions in encounter order.
\<close>

theorem protein_table_rows:
  assumes "get_protein_information svc accessions w = (df, w')"
  shows "rows (heap w' ! df) =
           map (map snd) (rights (protein_outcomes svc (length (sent w)) accessions)) \<and>
         length (rows (heap w' ! df)) =
           length (filter (\<lambda>r. \<not> isl r) (protein_outcomes svc (length (sent w)) accessions)) \<and>
         map hd (rows (heap w' ! df)) =
           map (JStr \<circ> snd)
             (filter (\<lambda>(k, a). \<not> isl (protein_outcome svc k a))
                (enumerate (length (sent w)) accessions)) \<and>
         length (rows (heap w' ! df)) \<le> length accessions"
proof -
  let ?rs = "protein_outcomes svc (length (sent w)) accessions"
  have rows: "rows (heap w' ! df) = map (map snd) (rights ?rs)"
    using assms by (auto simp: get_protein_information_eq)
  have "length (rights ?rs) \<le> length ?rs" by (rule length_rights_le)
  then have le: "length (rights ?rs) \<le> length accessions"
    by (simp add: protein_outcomes_def)
  have "map hd (map (map snd) (rights ?rs)) =
        map (JStr \<circ> snd) (filter (\<lambda>(k, a). \<not> isl (protein_outcome svc k a))
           (enumerate (length (sent w)) accessions))"
    unfolding protein_outcomes_def by (simp add: accessions_of_rights [symmetric])
  with rows le show ?thesis by (simp add: length_rights)
qed

lemma stage1_good:
  "get_protein_information good_service [''P12345'', ''Q8N726'', ''O00255''] world0 = (0, world1)"
  by (simp add: eval_defs)

theorem protein_table_rows_witness:
  "get_protein_information good_service [''P12345'', ''Q8N726'', ''O00255''] world0 = (0, world1) \<and>
   rows (heap world1 ! 0) =
     [[JStr ''P12345'', JStr ''Aspartate aminotransferase, mitochondrial'', JStr ''GOT2'',
       JStr ''Oryctolagus cuniculus'', JStr ''Rabbit'', JInt 47409],
      [JStr ''O00255'', JStr ''Menin'', JStr ''MEN1'', JStr ''Homo sapiens'', JStr ''Human'',
       JInt 68023]] \<and>
   length (filter (\<lambda>r. \<not> isl r)
      (protein_outcomes good_service 0 [''P12345'', ''Q8N726'', ''O00255''])) = 2 \<and>
   map hd (rows (heap world1 ! 0)) = [JStr ''P12345'', JStr ''O00255'']"
proof -
  have "length (filter (\<lambda>r. \<not> isl r)
      (protein_outcomes good_service 0 [''P12345'', ''Q8N726'', ''O00255''])) = 2"
    using conjunct1 [OF conjunct2 [OF protein_table_rows [OF stage1_good]]]
    by (simp add: world0_def world1_def example_table_def)
  then show ?thesis
    by (simp add: stage1_good world1_def example_table_def)
qed

section \<open>Failures of single accessions\<close>

lemma protein_outcomes_append:
  "protein_outcomes svc n (xs @ ys) =
     protein_outcomes svc n xs @ protein_outcomes svc (n + length xs) ys"
  by (induction xs arbitrary: n) (simp_all add: protein_outcomes_def)

lemma rights_append: "rights (rs @ ss) = rights rs @ rights ss"
  by (induction rs rule: rights.induct) simp_all

text \<open>
  C4. An accession whose processing fails changes nothing for the others: every
  accession of the list is requested, once and in order, and the rows of the table are
  those of the accessions before the failing one followed by those of the accessions
  after it, which are processed as the next requests.
\<close>

theorem protein_failure_is_isolated:
  assumes "get_protein_information svc (before @ a # after) w = (df, w')"
    and "protein_outcome svc (length (sent w) + length before) a = Inl err"
  shows "sent w' = sent w @ map Get_protein (before @ a # after) \<and>
         rows (heap w' ! df) =
           map (map snd) (rights (protein_outcomes svc (length (sent w)) before)) @
           map (map snd)
             (rights (protein_outcomes svc (length (sent w) + length before + 1) after))"
proof -
  have "rights (protein_outcomes svc (length (sent w)) (before @ a # after)) =
        rights (protein_outcomes svc (length (sent w)) before) @
        rights (protein_outcomes svc (length (sent w) + length before + 1) after)"
    using assms(2) by (simp add: protein_outcomes_append protein_outcomes_Cons rights_append)
  then show ?thesis
    using assms(1) by (auto simp: get_protein_information_eq)
qed

theorem protein_failure_is_isolated_witness:
  "protein_outcome good_service (length (sent world0) + length [''P12345'']) ''Q8N726'' =
     Inl HTTPError \<and>
   sent (snd (get_protein_information good_service ([''P12345''] @ ''Q8N726'' # [''O00255'']) world0)) =
     [Get_protein ''P12345'', Get_protein ''Q8N726'', Get_protein ''O00255''] \<and>
   rows (heap (snd (get_protein_information good_service
                      ([''P12345''] @ ''Q8N726'' # [''O00255'']) world0)) ! 0) =
     [[JStr ''P12345'', JStr ''Aspartate aminotransferase, mitochondrial'', JStr ''GOT2'',
       JStr ''Oryctolagus cuniculus'', JStr ''Rabbit'', JInt 47409],
      [JStr ''O00255'', JStr ''Menin'', JStr ''MEN1'', JStr ''Homo sapiens'', JStr ''Human'',
       JInt 68023]]"
proof -
  have failed:
    "protein_outcome good_service (length (sent world0) + length [''P12345'']) ''Q8N726'' =
       Inl HTTPError"
    by (simp add: protein_outcome_def answer_def good_service_def protein_service_def)
  have stage:
    "get_protein_information good_service ([''P12345''] @ ''Q8N726'' # [''O00255'']) world0 =
       (0, snd (get_protein_information good_service
                  ([''P12345''] @ ''Q8N726'' # [''O00255'']) world0))"
    by (simp add: get_protein_information_eq world0_def)
  show ?thesis
    using protein_failure_is_isolated [OF stage failed] failed
    by (simp add: world0_def protein_outcomes_def protein_outcome_def answer_def
          good_service_def protein_service_def protein_info_def protein_body_def seq_index_def)
qed

section \<open>The fields of a protein record\<close>

text \<open>A subscription with a string key succeeds on mappings only, and an index that is
  followed by a string key succeeds on lists only: on the paths of \<open>protein_info\<close>,
  \<open>subscripts\<close> and \<open>along\<close> agree.\<close>

lemma getitem_key: "py_getitem v (JStr k) = Inr u \<longleftrightarrow> dict_field v k = Some u"
  by (cases v) (auto simp: dict_field_def split: option.splits)

lemma getitem_index_key:
  "(py_getitem v (JInt (int i)) = Inr u \<and> py_getitem u (JStr k) = Inr t) \<longleftrightarrow>
   (list_entry v i = Some u \<and> dict_field u k = Some t)"
  by (cases v) (auto simp: list_entry_def dict_field_def seq_index_def getitem_key split: option.splits)

lemma subscripts_Inr_Cons:
  "subscripts v (k # ks) = Inr x \<longleftrightarrow> (\<exists>u. py_getitem v k = Inr u \<and> subscripts u ks = Inr x)"
  by (auto split: sum.splits)

lemma along_key: "along v (Inl k # steps) = Some x \<longleftrightarrow> (\<exists>u. dict_field v k = Some u \<and> along u steps = Some x)"
  by (cases "dict_field v k") auto

lemma along_index: "along v (Inr i # steps) = Some x \<longleftrightarrow> (\<exists>u. list_entry v i = Some u \<and> along u steps = Some x)"
  by (cases "list_entry v i") auto

lemma path_keys:
  "subscripts v (map JStr ks) = Inr x \<longleftrightarrow> along v (map Inl ks) = Some x"
proof (induction ks arbitrary: v)
  case Nil show ?case by simp
next
  case (Cons k ks)
  show ?case
    unfolding list.map subscripts_Inr_Cons along_key by (simp add: getitem_key Cons.IH)
qed

lemma path_index_key:
  "subscripts v (JInt (int i) # JStr k # map JStr ks) = Inr x \<longleftrightarrow>
   along v (Inr i # Inl k # map Inl ks) = Some x"
proof -
  have "subscripts v (JInt (int i) # JStr k # map JStr ks) = Inr x \<longleftrightarrow>
        (\<exists>u t. (py_getitem v (JInt (int i)) = Inr u \<and> py_getitem u (JStr k) = Inr t) \<and>
               subscripts t (map JStr ks) = Inr x)"
    unfolding subscripts_Inr_Cons by blast
  also have "\<dots> \<longleftrightarrow> (\<exists>u t. (list_entry v i = Some u \<and> dict_field u k = Some t) \<and>
               along t (map Inl ks) = Some x)"
    unfolding getitem_index_key path_keys ..
  also have "\<dots> \<longleftrightarrow> along v (Inr i # Inl k # map Inl ks) = Some x"
    unfolding along_index along_key by blast
  finally show ?thesis .
qed

lemma path_name: "subscripts body [JStr ''protein'', JStr ''recommendedName'', JStr ''fullName'', JStr ''value''] = Inr x
   \<longleftrightarrow> along body [Inl ''protein'', Inl ''recommendedName'', Inl ''fullName'', Inl ''value''] = Some x"
  using path_keys [of body "[''protein'', ''recommendedName'', ''fullName'', ''value'']" x] by simp

lemma path_gene: "subscripts body [JStr ''gene'', JInt 0, JStr ''name'', JStr ''value''] = Inr x
   \<longleftrightarrow> along body [Inl ''gene'', Inr 0, Inl ''name'', Inl ''value''] = Some x"
  using path_index_key [of _ 0 "''name''" "[''value'']" x]
  by (simp add: subscripts_Inr_Cons [of body] along_key [of body] getitem_key del: subscripts.simps along.simps)

lemma path_organism: "subscripts body [JStr ''organism'', JStr ''names'', JInt (int i), JStr ''value''] = Inr x
   \<longleftrightarrow> along body [Inl ''organism'', Inl ''names'', Inr i, Inl ''value''] = Some x"
  using path_index_key [of _ i "''value''" "[]" x]
  by (simp add: subscripts_Inr_Cons [of _ "JStr _"] along_key [of _ "''organism''"] along_key [of _ "''names''"] getitem_key del: subscripts.simps along.simps)

lemma path_mass: "subscripts body [JStr ''sequence'', JStr ''mass''] = Inr x
   \<longleftrightarrow> along body [Inl ''sequence'', Inl ''mass''] = Some x"
  using path_keys [of body "[''sequence'', ''mass'']" x] by simp


lemma path_scientific: "subscripts body [JStr ''organism'', JStr ''names'', JInt 0, JStr ''value''] = Inr x
   \<longleftrightarrow> along body [Inl ''organism'', Inl ''names'', Inr 0, Inl ''value''] = Some x"
  using path_organism [of body 0 x] by simp

lemma path_common: "subscripts body [JStr ''organism'', JStr ''names'', JInt 1, JStr ''value''] = Inr x
   \<longleftrightarrow> along body [Inl ''organism'', Inl ''names'', Inr 1, Inl ''value''] = Some x"
  using path_organism [of body 1 x] by simp

lemma protein_info_Inr:
  "protein_info a body = Inr info \<longleftrightarrow>
   (\<exists>name gene scientific common mass.
      subscripts body [JStr ''protein'', JStr ''recommendedName'', JStr ''fullName'', JStr ''value''] = Inr name \<and>
      subscripts body [JStr ''gene'', JInt 0, JStr ''name'', JStr ''value''] = Inr gene \<and>
      subscripts body [JStr ''organism'', JStr ''names'', JInt 0, JStr ''value''] = Inr scientific \<and>
      subscripts body [JStr ''organism'', JStr ''names'', JInt 1, JStr ''value''] = Inr common \<and>
      subscripts body [JStr ''sequence'', JStr ''mass''] = Inr mass \<and>
      info = zip protein_columns [JStr a, name, gene, scientific, common, mass])"
  unfolding protein_info_def protein_columns_def
  by (auto split: sum.splits simp del: subscripts.simps)

lemma spec_protein_record_Some:
  "spec_protein_record a body = Some pr \<longleftrightarrow>
   (\<exists>name gene scientific common mass.
      along body [Inl ''protein'', Inl ''recommendedName'', Inl ''fullName'', Inl ''value''] = Some name \<and>
      along body [Inl ''gene'', Inr 0, Inl ''name'', Inl ''value''] = Some gene \<and>
      along body [Inl ''organism'', Inl ''names'', Inr 0, Inl ''value''] = Some scientific \<and>
      along body [Inl ''organism'', Inl ''names'', Inr 1, Inl ''value''] = Some common \<and>
      along body [Inl ''sequence'', Inl ''mass''] = Some mass \<and>
      pr = \<lparr>pr_accession = a, display_name = name, gene_symbol = gene,
                scientific_name = scientific, common_name = common,
                molecular_weight = mass\<rparr>)"
  unfolding spec_protein_record_def
  by (auto simp: bind_eq_Some_conv simp del: along.simps)

lemma protein_info_refines:
  "protein_info a body = Inr info \<longleftrightarrow>
   (\<exists>pr. spec_protein_record a body = Some pr \<and> info = zip protein_columns (record_cells pr))"
  unfolding protein_info_Inr spec_protein_record_Some path_name path_gene path_scientific path_common path_mass
  by (auto simp: record_cells_def simp del: along.simps)


lemma protein_outcomes_nth:
  "k < length accs \<Longrightarrow> protein_outcomes svc n accs ! k = protein_outcome svc (n + k) (accs ! k)"
  by (simp add: protein_outcomes_def nth_enumerate_eq)

lemma length_protein_outcomes: "length (protein_outcomes svc n accs) = length accs"
  by (simp add: protein_outcomes_def)

lemma protein_outcome_in_rights:
  assumes "k < length accs" and "protein_outcome svc (n + k) (accs ! k) = Inr info"
  shows "info \<in> set (rights (protein_outcomes svc n accs))"
proof -
  have "protein_outcomes svc n accs ! k \<in> set (protein_outcomes svc n accs)"
    using assms(1) by (intro nth_mem) (simp add: length_protein_outcomes)
  then show ?thesis
    using assms by (simp add: set_rights protein_outcomes_nth)
qed

text \<open>
  C7. For every accession that is resolved successfully, the dictionary that is built
  is the ProteinRecord of the spec: the scientific organism name is the value of the
  first entry and the common name the value of the second entry of the list of organism
  names of the reply, the gene symbol that of the first listed gene, the display name
  the full recommended name and the molecular weight the sequence mass; its cells are a
  row of the returned table, under the labels of \<open>protein_columns\<close>.
\<close>

theorem protein_record_fields:
  assumes "get_protein_information svc accessions w = (df, w')"
    and "k < length accessions"
    and "protein_outcome svc (length (sent w) + k) (accessions ! k) = Inr info"
  shows "\<exists>body pr.
           answer (svc (length (sent w) + k) (Get_protein (accessions ! k))) = Inr body \<and>
           spec_protein_record (accessions ! k) body = Some pr \<and>
           info = zip protein_columns (record_cells pr) \<and>
           columns (heap w' ! df) = protein_columns \<and>
           record_cells pr \<in> set (rows (heap w' ! df))"
proof -
  let ?a = "accessions ! k"
  obtain body where body: "answer (svc (length (sent w) + k) (Get_protein ?a)) = Inr body"
    and info: "protein_info ?a body = Inr info"
    using assms(3) by (auto simp: protein_outcome_def split: sum.splits)
  from info obtain pr where pr: "spec_protein_record ?a body = Some pr"
    and cells: "info = zip protein_columns (record_cells pr)"
    unfolding protein_info_refines by blast
  have mem: "info \<in> set (rights (protein_outcomes svc (length (sent w)) accessions))"
    using assms(2,3) by (rule protein_outcome_in_rights)
  have "map snd info = record_cells pr"
    by (simp add: cells protein_columns_def record_cells_def)
  with mem have row: "record_cells pr \<in> map snd ` set (rights (protein_outcomes svc (length (sent w)) accessions))"
    by force
  have "rights (protein_outcomes svc (length (sent w)) accessions) \<noteq> []"
    using mem by auto
  with row assms(1) have "columns (heap w' ! df) = protein_columns \<and>
      record_cells pr \<in> set (rows (heap w' ! df))"
    by (auto simp: get_protein_information_eq)
  with body pr cells show ?thesis by blast
qed


theorem protein_record_fields_witness:
  "protein_outcome good_service (length (sent world0) + 0) ([''P12345'', ''Q8N726'', ''O00255''] ! 0) =
     Inr (zip protein_columns
            [JStr ''P12345'', JStr ''Aspartate aminotransferase, mitochondrial'', JStr ''GOT2'',
             JStr ''Oryctolagus cuniculus'', JStr ''Rabbit'', JInt 47409]) \<and>
   (\<exists>body pr.
      answer (good_service 0 (Get_protein ''P12345'')) = Inr body \<and>
      spec_protein_record ''P12345'' body = Some pr \<and>
      scientific_name pr = JStr ''Oryctolagus cuniculus'' \<and>
      common_name pr = JStr ''Rabbit'' \<and>
      gene_symbol pr = JStr ''GOT2'' \<and>
      molecular_weight pr = JInt 47409 \<and>
      record_cells pr \<in>
        set (rows (heap (snd (get_protein_information good_service
                                [''P12345'', ''Q8N726'', ''O00255''] world0)) ! 0)))"
proof -
  let ?accs = "[''P12345'', ''Q8N726'', ''O00255'']"
  have stage: "get_protein_information good_service ?accs world0 =
                 (0, snd (get_protein_information good_service ?accs world0))"
    by (simp add: get_protein_information_eq world0_def)
  have ok: "protein_outcome good_service (length (sent world0) + 0) (?accs ! 0) =
     Inr (zip protein_columns
            [JStr ''P12345'', JStr ''Aspartate aminotransferase, mitochondrial'', JStr ''GOT2'',
             JStr ''Oryctolagus cuniculus'', JStr ''Rabbit'', JInt 47409])"
    by (simp add: protein_outcome_def answer_def good_service_def protein_service_def
          protein_info_def protein_body_def seq_index_def protein_columns_def)
  have len: "0 < length ?accs" by simp
  from protein_record_fields [OF stage len ok]
  obtain body pr where
    "answer (good_service (length (sent world0) + 0) (Get_protein (?accs ! 0))) = Inr body"
    "spec_protein_record (?accs ! 0) body = Some pr"
    "zip protein_columns
       [JStr ''P12345'', JStr ''Aspartate aminotransferase, mitochondrial'', JStr ''GOT2'',
        JStr ''Oryctolagus cuniculus'', JStr ''Rabbit'', JInt 47409] =
     zip protein_columns (record_cells pr)"
    "record_cells pr \<in> set (rows (heap (snd (get_protein_information good_service ?accs world0)) ! 0))"
    by blast
  then have "answer (good_service 0 (Get_protein ''P12345'')) = Inr body \<and>
      spec_protein_record ''P12345'' body = Some pr \<and>
      scientific_name pr = JStr ''Oryctolagus cuniculus'' \<and>
      common_name pr = JStr ''Rabbit'' \<and>
      gene_symbol pr = JStr ''GOT2'' \<and>
      molecular_weight pr = JInt 47409 \<and>
      record_cells pr \<in>
        set (rows (heap (snd (get_protein_information good_service ?accs world0)) ! 0))"
    by (simp add: world0_def protein_columns_def record_cells_def)
  with ok show ?thesis by blast
qed

section \<open>Stage 2\<close>

lemma xref_try_eq:
  "xref_try svc (JStr name) gene w =
     (xref_outcome svc (length (sent w)) name gene,
      w\<lparr>sent := sent w @ [Get_xref (map lower_char name) gene]\<rparr>)"
  by (simp add: xref_try_def fetch_json_eq xref_outcome_def split: sum.splits)

lemma xref_loop_eq:
  "xref_loop svc (zip (map JStr names) genes) ids w =
     (ids @ rights (xref_outcomes svc (length (sent w)) (zip names genes)),
      w\<lparr>sent := sent w @ map (\<lambda>(name, gene). Get_xref (map lower_char name) gene) (zip names genes)\<rparr>)"
proof (induction names arbitrary: genes ids w)
  case Nil
  show ?case by (simp add: xref_outcomes_def)
next
  case (Cons name names)
  show ?case
  proof (cases genes)
    case Nil
    then show ?thesis by (simp add: xref_outcomes_def)
  next
    case (Cons gene genes')
    show ?thesis
      by (cases "xref_outcome svc (length (sent w)) name gene")
         (simp_all add: Cons xref_try_eq Cons.IH xref_outcomes_def)
  qed
qed

lemma xref_try_frame:
  "heap (snd (xref_try svc species gene w)) = heap w \<and>
   files (snd (xref_try svc species gene w)) = files w"
  by (simp add: xref_try_def fetch_json_eq split: sum.splits)

lemma xref_loop_frame:
  "heap (snd (xref_loop svc pairs ids w)) = heap w \<and>
   files (snd (xref_loop svc pairs ids w)) = files w"
proof (induction pairs arbitrary: ids w)
  case Nil
  show ?case by simp
next
  case (Cons p pairs)
  obtain species gene where p: "p = (species, gene)" by (cases p)
  obtain r w1 where t: "xref_try svc species gene w = (r, w1)" by (cases "xref_try svc species gene w")
  have f: "heap w1 = heap w \<and> files w1 = files w"
    using xref_try_frame [of svc species gene w] by (simp add: t)
  show ?case
    by (cases r) (simp_all add: p t Cons.IH f)
qed

lemma xref_loop_length:
  "length (fst (xref_loop svc pairs ids w)) \<le> length ids + length pairs"
proof (induction pairs arbitrary: ids w)
  case Nil
  show ?case by simp
next
  case (Cons p pairs)
  obtain species gene where p: "p = (species, gene)" by (cases p)
  obtain r w1 where t: "xref_try svc species gene w = (r, w1)" by (cases "xref_try svc species gene w")
  show ?case
  proof (cases r)
    case (Inl e)
    then show ?thesis using Cons.IH [of ids w1] by (simp add: p t)
  next
    case (Inr v)
    then show ?thesis using Cons.IH [of "ids @ [v]" w1] by (simp add: p t)
  qed
qed


lemma position_less: "c \<in> set cs \<Longrightarrow> position c cs < length cs"
  by (induction cs) auto

lemma position_append_new: "c \<notin> set cs \<Longrightarrow> position c (cs @ [c]) = length cs"
  by (induction cs) auto

lemma position_append_old: "c \<in> set cs \<Longrightarrow> position c (cs @ xs) = position c cs"
  by (induction cs) auto

lemma put_cell_read:
  "length r = length cs \<Longrightarrow>
   put_cell cs c r v ! position c (if c \<in> set cs then cs else cs @ [c]) = v"
  by (auto simp: put_cell_def position_less position_append_new nth_append)

lemma column_length: "column df c = Inr vs \<Longrightarrow> length vs = length (rows df)"
  by (auto simp: column_def split: if_splits)

lemma xref_outcome_first_entry:
  "xref_outcome svc k name gene = Inr ensembl_id \<longleftrightarrow>
   (\<exists>body. answer (svc k (Get_xref (map lower_char name) gene)) = Inr body \<and>
           along body [Inr 0, Inl ''id''] = Some ensembl_id)"
proof -
  have "subscripts body [JInt 0, JStr ''id''] = Inr x \<longleftrightarrow>
        along body [Inr 0, Inl ''id''] = Some x" for body x
    using path_index_key [of body 0 "''id''" "[]" x] by simp
  then show ?thesis
    by (auto simp: xref_outcome_def split: sum.splits simp del: subscripts.simps along.simps)
qed

lemma set_column_read:
  assumes "wf_frame df" and "set_column df c vs = Inr df'" and "length vs = length (rows df)"
  shows "column df' c = Inr vs"
proof -
  let ?cs' = "if c \<in> set (columns df) then columns df else columns df @ [c]"
  have df': "df' = \<lparr>columns = ?cs',
      rows = map (\<lambda>(r, v). put_cell (columns df) c r v) (zip (rows df) vs)\<rparr>"
    using assms(2,3) by (simp add: set_column_def Let_def)
  have "map (\<lambda>r. r ! position c ?cs')
          (map (\<lambda>(r, v). put_cell (columns df) c r v) (zip (rows df) vs)) = vs"
  proof (rule nth_equalityI)
    show "length (map (\<lambda>r. r ! position c ?cs')
          (map (\<lambda>(r, v). put_cell (columns df) c r v) (zip (rows df) vs))) = length vs"
      using assms(3) by simp
  next
    fix i
    assume "i < length (map (\<lambda>r. r ! position c ?cs')
          (map (\<lambda>(r, v). put_cell (columns df) c r v) (zip (rows df) vs)))"
    then have i: "i < length vs" "i < length (rows df)" using assms(3) by simp_all
    then have "length (rows df ! i) = length (columns df)"
      using assms(1) by (simp add: wf_frame_def list_all_length)
    then show "map (\<lambda>r. r ! position c ?cs')
          (map (\<lambda>(r, v). put_cell (columns df) c r v) (zip (rows df) vs)) ! i = vs ! i"
      using i put_cell_read [of "rows df ! i" "columns df" c "vs ! i"] by simp
  qed
  moreover have "c \<in> set ?cs'" by simp
  ultimately show ?thesis
    unfolding df' column_def by simp
qed

text \<open>
  C8. Given a table whose organism names are strings, \<^verbatim>\<open>get_ensembl_gene_ids\<close>
  issues one cross-reference request for every row, in table order, keyed by the
  lower-cased organism name and the gene cell of the row; the loop collects, for every
  row whose lookup succeeds, the \<open>id\<close> of the first entry of the decoded list; when
  the function returns, these identifiers are the new column, one per row.
\<close>

theorem xref_lookups:
  assumes "df < length (heap w)" and "wf_frame (heap w ! df)"
    and "column (heap w ! df) ''Organism (Scientific)'' = Inr (map JStr names)"
    and "column (heap w ! df) ''Gene'' = Inr genes"
    and "get_ensembl_gene_ids svc df w = (res, w')"
  shows "sent w' = sent w @
           map (\<lambda>(name, gene). Get_xref (map lower_char name) gene) (zip names genes) \<and>
         length (zip names genes) = length (rows (heap w ! df)) \<and>
         fst (xref_loop svc (zip (map JStr names) genes) [] w) =
           rights (xref_outcomes svc (length (sent w)) (zip names genes)) \<and>
         (\<forall>k name gene ensembl_id.
            xref_outcome svc k name gene = Inr ensembl_id \<longleftrightarrow>
            (\<exists>body. answer (svc k (Get_xref (map lower_char name) gene)) = Inr body \<and>
                    along body [Inr 0, Inl ''id''] = Some ensembl_id)) \<and>
         (res = Inr df \<longrightarrow>
            column (heap w' ! df) ''Ensembl Gene ID'' =
              Inr (rights (xref_outcomes svc (length (sent w)) (zip names genes))) \<and>
            length (rights (xref_outcomes svc (length (sent w)) (zip names genes))) =
              length (rows (heap w ! df)))"
proof -
  let ?frame = "heap w ! df"
  let ?ids = "rights (xref_outcomes svc (length (sent w)) (zip names genes))"
  let ?w1 = "w\<lparr>sent := sent w @
       map (\<lambda>(name, gene). Get_xref (map lower_char name) gene) (zip names genes)\<rparr>"
  have loop: "xref_loop svc (zip (map JStr names) genes) [] w = (?ids, ?w1)"
    by (simp add: xref_loop_eq)
  have len: "length names = length (rows ?frame)" "length genes = length (rows ?frame)"
    using column_length [OF assms(3)] column_length [OF assms(4)] by simp_all
  have ids_le: "length ?ids \<le> length (rows ?frame)"
    using length_rights_le [of "xref_outcomes svc (length (sent w)) (zip names genes)"] len
    by (simp add: xref_outcomes_def)
  have step: "(res, w') =
      (case set_column ?frame ''Ensembl Gene ID'' ?ids of
         Inl err \<Rightarrow> (Inl err, ?w1)
       | Inr df' \<Rightarrow> (Inr df, ?w1\<lparr>heap := (heap w)[df := df']\<rparr>))"
    using assms(5)
    by (cases "set_column ?frame ''Ensembl Gene ID'' ?ids")
       (simp_all add: get_ensembl_gene_ids_def assms(3,4) loop)
  have sent: "sent w' = sent ?w1"
    using step by (cases "set_column ?frame ''Ensembl Gene ID'' ?ids") auto
  have col: "column (heap w' ! df) ''Ensembl Gene ID'' = Inr ?ids \<and>
             length ?ids = length (rows ?frame)" if ok: "res = Inr df"
  proof -
    from step ok obtain df' where set: "set_column ?frame ''Ensembl Gene ID'' ?ids = Inr df'"
      and w': "w' = ?w1\<lparr>heap := (heap w)[df := df']\<rparr>"
      by (cases "set_column ?frame ''Ensembl Gene ID'' ?ids") auto
    have l: "length ?ids = length (rows ?frame)"
      using set ids_le by (auto simp: set_column_def Let_def split: if_splits)
    have "heap w' ! df = df'" using w' assms(1) by simp
    with set_column_read [OF assms(2) set l] l show ?thesis by simp
  qed
  show ?thesis
    using sent len loop col xref_outcome_first_entry by simp
qed


lemma stage2_good: "get_ensembl_gene_ids good_service 0 world1 = (Inr 0, world2)"
  by (simp add: eval_defs)

theorem xref_lookups_witness:
  "0 < length (heap world1) \<and> wf_frame (heap world1 ! 0) \<and>
   column (heap world1 ! 0) ''Organism (Scientific)'' =
     Inr (map JStr [''Oryctolagus cuniculus'', ''Homo sapiens'']) \<and>
   column (heap world1 ! 0) ''Gene'' = Inr [JStr ''GOT2'', JStr ''MEN1''] \<and>
   get_ensembl_gene_ids good_service 0 world1 = (Inr 0, world2) \<and>
   sent world2 = sent world1 @
     [Get_xref ''oryctolagus cuniculus'' (JStr ''GOT2''),
      Get_xref ''homo sapiens'' (JStr ''MEN1'')] \<and>
   column (heap world2 ! 0) ''Ensembl Gene ID'' =
     Inr [JStr ''ENSOCUG00000012296'', JStr ''ENSG00000133895'']"
proof -
  have ref: "0 < length (heap world1)" by (simp add: world1_def)
  have wf: "wf_frame (heap world1 ! 0)"
    by (simp add: wf_frame_def world1_def example_table_def protein_columns_def)
  have species: "column (heap world1 ! 0) ''Organism (Scientific)'' =
      Inr (map JStr [''Oryctolagus cuniculus'', ''Homo sapiens''])"
    by (simp add: column_def world1_def example_table_def protein_columns_def)
  have genes: "column (heap world1 ! 0) ''Gene'' = Inr [JStr ''GOT2'', JStr ''MEN1'']"
    by (simp add: column_def world1_def example_table_def protein_columns_def)
  have ids: "rights (xref_outcomes good_service (length (sent world1))
               (zip [''Oryctolagus cuniculus'', ''Homo sapiens''] [JStr ''GOT2'', JStr ''MEN1''])) =
     [JStr ''ENSOCUG00000012296'', JStr ''ENSG00000133895'']"
    by (simp add: xref_outcomes_def xref_outcome_def answer_def good_service_def
          xref_service_def lower_char_def seq_index_def)
  note t = xref_lookups [OF ref wf species genes stage2_good]
  have "sent world2 = sent world1 @
      map (\<lambda>(name, gene). Get_xref (map lower_char name) gene)
        (zip [''Oryctolagus cuniculus'', ''Homo sapiens''] [JStr ''GOT2'', JStr ''MEN1''])"
    using t by (rule conjunct1)
  then have sent: "sent world2 = sent world1 @
     [Get_xref ''oryctolagus cuniculus'' (JStr ''GOT2''),
      Get_xref ''homo sapiens'' (JStr ''MEN1'')]"
    by (simp add: lower_char_def)
  have "column (heap world2 ! 0) ''Ensembl Gene ID'' =
      Inr (rights (xref_outcomes good_service (length (sent world1))
               (zip [''Oryctolagus cuniculus'', ''Homo sapiens''] [JStr ''GOT2'', JStr ''MEN1''])))"
    using t by blast
  then have col: "column (heap world2 ! 0) ''Ensembl Gene ID'' =
     Inr [JStr ''ENSOCUG00000012296'', JStr ''ENSG00000133895'']"
    by (simp only: ids)
  from ref wf species genes stage2_good sent col show ?thesis by blast
qed


lemma rights_shorter: "Inl err \<in> set rs \<Longrightarrow> length (rights rs) < length rs"
proof (induction rs rule: rights.induct)
  case 1
  then show ?case by simp
next
  case (2 e rs)
  have "length (rights rs) \<le> length rs" by (rule length_rights_le)
  then show ?case by simp
next
  case (3 v rs)
  then show ?case by simp
qed

text \<open>A lookup that fails leaves the list of identifiers shorter than the table, and
  the assignment of the column raises.\<close>

lemma xref_failure_raises:
  assumes "column (heap w ! df) ''Organism (Scientific)'' = Inr (map JStr names)"
    and "column (heap w ! df) ''Gene'' = Inr genes"
    and "Inl err \<in> set (xref_outcomes svc (length (sent w)) (zip names genes))"
  shows "fst (get_ensembl_gene_ids svc df w) = Inl ValueError"
proof -
  let ?outs = "xref_outcomes svc (length (sent w)) (zip names genes)"
  have len: "length names = length (rows (heap w ! df))" "length genes = length (rows (heap w ! df))"
    using column_length [OF assms(1)] column_length [OF assms(2)] by simp_all
  have "length (rights ?outs) < length ?outs" using assms(3) by (rule rights_shorter)
  then have short: "length (rights ?outs) < length (rows (heap w ! df))"
    using len by (simp add: xref_outcomes_def)
  then have "set_column (heap w ! df) ''Ensembl Gene ID'' (rights ?outs) = Inl ValueError"
    by (auto simp: set_column_def Let_def)
  then show ?thesis
    by (simp add: get_ensembl_gene_ids_def assms(1,2) xref_loop_eq)
qed

lemma xref_loop_files: "xref_loop svc pairs ids w = (ids', w') \<Longrightarrow> files w' = files w"
  using xref_loop_frame [of svc pairs ids w] by simp

lemma get_ensembl_gene_ids_files: "files (snd (get_ensembl_gene_ids svc df w)) = files w"
  by (auto simp: get_ensembl_gene_ids_def split: sum.splits prod.splits dest: xref_loop_files)

lemma stage1_xref_gap:
  "get_protein_information xref_gap_service [''P12345'', ''Q8N726'', ''O00255''] world0 = (0, world1)"
  by (simp add: eval_defs)

text \<open>
  C2. With two rows in the table and a cross-reference service that answers 404 for
  the gene of the second row, \<^verbatim>\<open>get_ensembl_gene_ids\<close> returns no table: the list
  of identifiers has one entry, its assignment as a column of the two-row frame raises
  \<open>ValueError\<close>, and the script ends with an uncaught exception.
\<close>

theorem xref_failure_no_table:
  "get_protein_information xref_gap_service [''P12345'', ''Q8N726'', ''O00255''] world0 = (0, world1) \<and>
   length (rows (heap world1 ! 0)) = 2 \<and>
   xref_outcomes xref_gap_service (length (sent world1))
     [(''Oryctolagus cuniculus'', JStr ''GOT2''), (''Homo sapiens'', JStr ''MEN1'')] =
     [Inr (JStr ''ENSOCUG00000012296''), Inl HTTPError] \<and>
   fst (get_ensembl_gene_ids xref_gap_service 0 world1) = Inl ValueError \<and>
   fst (main xref_gap_service world0) = Inl ValueError \<and>
   exit_status (fst (main xref_gap_service world0)) = 1 \<and>
   files (snd (main xref_gap_service world0)) = Map.empty"
proof -
  have n: "length (rows (heap world1 ! 0)) = 2"
    by (simp add: world1_def example_table_def)
  have species: "column (heap world1 ! 0) ''Organism (Scientific)'' =
      Inr (map JStr [''Oryctolagus cuniculus'', ''Homo sapiens''])"
    by (simp add: column_def world1_def example_table_def protein_columns_def)
  have genes: "column (heap world1 ! 0) ''Gene'' = Inr [JStr ''GOT2'', JStr ''MEN1'']"
    by (simp add: column_def world1_def example_table_def protein_columns_def)
  have outs: "xref_outcomes xref_gap_service (length (sent world1))
     [(''Oryctolagus cuniculus'', JStr ''GOT2''), (''Homo sapiens'', JStr ''MEN1'')] =
     [Inr (JStr ''ENSOCUG00000012296''), Inl HTTPError]"
    by (simp add: xref_outcomes_def xref_outcome_def answer_def xref_gap_service_def
          xref_service_def lower_char_def seq_index_def)
  have "Inl HTTPError \<in> set (xref_outcomes xref_gap_service (length (sent world1))
     (zip [''Oryctolagus cuniculus'', ''Homo sapiens''] [JStr ''GOT2'', JStr ''MEN1'']))"
    using outs by simp
  with species genes have raised: "fst (get_ensembl_gene_ids xref_gap_service 0 world1) = Inl ValueError"
    by (rule xref_failure_raises)
  then obtain w2 where stage2: "get_ensembl_gene_ids xref_gap_service 0 world1 = (Inl ValueError, w2)"
    by (cases "get_ensembl_gene_ids xref_gap_service 0 world1") simp
  have main: "main xref_gap_service world0 = (Inl ValueError, w2)"
    by (simp add: main_def run_def stage1_xref_gap stage2)
  have "files w2 = files world1"
    using get_ensembl_gene_ids_files [of xref_gap_service 0 world1] by (simp add: stage2)
  then have files: "files w2 = Map.empty"
    by (simp add: world1_def)
  from n outs raised main files show ?thesis
    by (simp add: stage1_xref_gap)
qed

section \<open>The store: who changes which frame\<close>

lemma position_nth: "c \<in> set cs \<Longrightarrow> cs ! position c cs = c"
  by (induction cs) auto

lemma gene_try_frame:
  "gene_try svc ids w = (r, w') \<Longrightarrow>
   heap w' = heap w \<and> files w' = files w \<and> sent w' = sent w @ [Post_lookup ids]"
  by (auto simp: gene_try_def fetch_json_eq split: sum.splits)

lemma get_gene_data_Inl:
  "get_gene_data svc ids w = (Inl err, w') \<Longrightarrow>
   err = SystemExit None \<and> heap w' = heap w \<and> files w' = files w \<and>
   sent w' = sent w @ [Post_lookup ids]"
  by (auto simp: get_gene_data_def alloc_def split: sum.splits prod.splits dest: gene_try_frame)

lemma get_gene_data_Inr:
  "get_gene_data svc ids w = (Inr g, w') \<Longrightarrow>
   g = length (heap w) \<and> (\<exists>t. heap w' = heap w @ [t]) \<and> files w' = files w \<and>
   sent w' = sent w @ [Post_lookup ids]"
  by (auto simp: get_gene_data_def alloc_def split: sum.splits prod.splits dest: gene_try_frame)

lemma get_gene_data_keeps:
  "take (length (heap w)) (heap (snd (get_gene_data svc ids w))) = heap w"
proof (cases "get_gene_data svc ids w")
  case (Pair r w')
  show ?thesis
  proof (cases r)
    case (Inl err)
    then show ?thesis using get_gene_data_Inl [of svc ids w err w'] Pair by simp
  next
    case (Inr g)
    then show ?thesis using get_gene_data_Inr [of svc ids w g w'] Pair by auto
  qed
qed

text \<open>After stage 2 has returned, the rest of the script only adds frames.\<close>

lemma run_keeps:
  assumes "get_protein_information svc accessions w = (df, w1)"
    and "get_ensembl_gene_ids svc df w1 = (Inr df', w2)"
  shows "take (length (heap w2)) (heap (snd (run svc accessions w))) = heap w2"
proof (cases "column (heap w2 ! df') ''Ensembl Gene ID''")
  case (Inl err)
  then show ?thesis by (simp add: run_def assms)
next
  case (Inr ids)
  show ?thesis
  proof (cases "get_gene_data svc ids w2")
    case (Pair r w3)
    show ?thesis
    proof (cases r)
      case (Inl err)
      then show ?thesis
        using get_gene_data_Inl [of svc ids w2 err w3] Pair
        by (simp add: run_def assms \<open>column (heap w2 ! df') ''Ensembl Gene ID'' = Inr ids\<close>)
    next
      case g: (Inr g)
      then obtain t where t: "heap w3 = heap w2 @ [t]"
        using get_gene_data_Inr [of svc ids w2 g w3] Pair by auto
      show ?thesis
        by (cases "merge_outer (heap w3 ! df') (heap w3 ! g) ''Ensembl Gene ID''")
           (simp_all add: run_def assms Inr Pair g t alloc_def to_excel_def)
    qed
  qed
qed

lemma get_ensembl_gene_ids_Inr:
  assumes "get_ensembl_gene_ids svc df w = (Inr df', w')"
  shows "df' = df \<and>
         (\<exists>ids new. set_column (heap w ! df) ''Ensembl Gene ID'' ids = Inr new \<and>
                    length ids \<le> length (rows (heap w ! df)) \<and>
                    heap w' = (heap w)[df := new]) \<and>
         ''Organism (Scientific)'' \<in> set (columns (heap w ! df))"
proof -
  from assms obtain species genes where
    species: "column (heap w ! df) ''Organism (Scientific)'' = Inr species"
    and genes: "column (heap w ! df) ''Gene'' = Inr genes"
    by (auto simp: get_ensembl_gene_ids_def split: sum.splits)
  obtain ids w1 where loop: "xref_loop svc (zip species genes) [] w = (ids, w1)"
    by (cases "xref_loop svc (zip species genes) [] w")
  have heap: "heap w1 = heap w"
    using xref_loop_frame [of svc "zip species genes" "[]" w] by (simp add: loop)
  have "length ids \<le> length (zip species genes)"
    using xref_loop_length [of svc "zip species genes" "[]" w] by (simp add: loop)
  then have le: "length ids \<le> length (rows (heap w ! df))"
    using column_length [OF species] by simp
  from assms obtain new where
    "set_column (heap w ! df) ''Ensembl Gene ID'' ids = Inr new"
    "df' = df" "w' = w1\<lparr>heap := (heap w)[df := new]\<rparr>"
    by (auto simp: get_ensembl_gene_ids_def species genes loop heap split: sum.splits)
  moreover have "''Organism (Scientific)'' \<in> set (columns (heap w ! df))"
    using species by (auto simp: column_def split: if_splits)
  ultimately show ?thesis using le by auto
qed


lemma set_column_new:
  assumes "c \<notin> set (columns df)" and "set_column df c ids = Inr new"
    and "length ids \<le> length (rows df)"
  shows "length ids = length (rows df) \<and> columns new = columns df @ [c] \<and>
         rows new = map (\<lambda>(r, v). r @ [v]) (zip (rows df) ids)"
  using assms by (auto simp: set_column_def Let_def put_cell_def split: if_splits)

lemma butlast_appended:
  "length vs = length rs \<Longrightarrow> map butlast (map (\<lambda>(r, v). r @ [v]) (zip rs vs)) = rs"
  by (induction rs vs rule: list_induct2') simp_all

lemma column_kept:
  assumes "wf_frame df" and "c' \<in> set (columns df)" and "length vs = length (rows df)"
  shows "column \<lparr>columns = columns df @ [c], rows = map (\<lambda>(r, v). r @ [v]) (zip (rows df) vs)\<rparr> c' =
         column df c'"
proof -
  have p: "position c' (columns df @ [c]) = position c' (columns df)"
    using assms(2) by (rule position_append_old)
  have "map (\<lambda>r. r ! position c' (columns df)) (map (\<lambda>(r, v). r @ [v]) (zip (rows df) vs)) =
        map (\<lambda>r. r ! position c' (columns df)) (rows df)"
  proof (rule nth_equalityI)
    show "length (map (\<lambda>r. r ! position c' (columns df))
            (map (\<lambda>(r, v). r @ [v]) (zip (rows df) vs))) =
          length (map (\<lambda>r. r ! position c' (columns df)) (rows df))"
      using assms(3) by simp
  next
    fix i
    assume "i < length (map (\<lambda>r. r ! position c' (columns df))
            (map (\<lambda>(r, v). r @ [v]) (zip (rows df) vs)))"
    then have i: "i < length (rows df)" "i < length vs" using assms(3) by simp_all
    then have "length (rows df ! i) = length (columns df)"
      using assms(1) by (simp add: wf_frame_def list_all_length)
    then have "position c' (columns df) < length (rows df ! i)"
      using position_less [OF assms(2)] by simp
    then show "map (\<lambda>r. r ! position c' (columns df))
            (map (\<lambda>(r, v). r @ [v]) (zip (rows df) vs)) ! i =
          map (\<lambda>r. r ! position c' (columns df)) (rows df) ! i"
      using i by (simp add: nth_append)
  qed
  then show ?thesis
    using assms(2) by (simp add: column_def p)
qed

lemma stage1_table:
  assumes "get_protein_information svc accs w = (df, w1)"
  shows "df = length (heap w) \<and> heap w1 = heap w @ [heap w1 ! df] \<and>
         wf_frame (heap w1 ! df) \<and> ''Ensembl Gene ID'' \<notin> set (columns (heap w1 ! df))"
proof -
  let ?rs = "rights (protein_outcomes svc (length (sent w)) accs)"
  let ?t = "\<lparr>columns = (if ?rs = [] then [] else protein_columns), rows = map (map snd) ?rs\<rparr>"
  have df: "df = length (heap w)" and h: "heap w1 = heap w @ [?t]"
    using assms by (auto simp: get_protein_information_eq)
  have t: "heap w1 ! df = ?t" by (simp add: df h)
  have "length (map snd info) = length protein_columns" if "info \<in> set ?rs" for info
    using protein_outcomes_keys [OF that] by (metis length_map)
  then have "wf_frame ?t"
    by (auto simp: wf_frame_def list_all_iff)
  moreover have "''Ensembl Gene ID'' \<notin> set (columns ?t)"
    by (simp add: protein_columns_def)
  ultimately show ?thesis using df h t by simp
qed

text \<open>
  C9. \<^verbatim>\<open>get_ensembl_gene_ids\<close>, given the table of stage 1, returns the very frame
  object it was given; the object has got one more column, \<open>Ensembl Gene ID\<close>, on the
  right, and every column and cell it had is unchanged; no other object of the store is
  touched. Stage 1 before it, and stage 3, the merge and the export after it, change no
  frame that exists: they only add new ones.
\<close>

theorem stage2_appends_in_place:
  assumes "get_protein_information svc accessions w = (df, w1)"
    and "get_ensembl_gene_ids svc df w1 = (Inr df', w2)"
  shows "df' = df \<and>
         columns (heap w2 ! df) = columns (heap w1 ! df) @ [''Ensembl Gene ID''] \<and>
         map butlast (rows (heap w2 ! df)) = rows (heap w1 ! df) \<and>
         (\<forall>c \<in> set (columns (heap w1 ! df)). column (heap w2 ! df) c = column (heap w1 ! df) c) \<and>
         length (heap w2) = length (heap w1) \<and>
         (\<forall>a. a \<noteq> df \<longrightarrow> heap w2 ! a = heap w1 ! a) \<and>
         take (length (heap w)) (heap w1) = heap w \<and>
         (\<forall>ids. take (length (heap w2)) (heap (snd (get_gene_data svc ids w2))) = heap w2) \<and>
         take (length (heap w2)) (heap (snd (run svc accessions w))) = heap w2"
proof -
  let ?old = "heap w1 ! df"
  note s1 = stage1_table [OF assms(1)]
  from get_ensembl_gene_ids_Inr [OF assms(2)] obtain ids new where
    same: "df' = df"
    and set: "set_column ?old ''Ensembl Gene ID'' ids = Inr new"
    and le: "length ids \<le> length (rows ?old)"
    and heap: "heap w2 = (heap w1)[df := new]"
    by blast
  have valid: "df < length (heap w1)"
    using s1 by (metis length_append_singleton lessI)
  have new: "heap w2 ! df = new" using heap valid by simp
  from s1 have fresh: "''Ensembl Gene ID'' \<notin> set (columns ?old)" and wf: "wf_frame ?old"
    by blast+
  note n = set_column_new [OF fresh set le]
  have new_eq: "new = \<lparr>columns = columns ?old @ [''Ensembl Gene ID''],
                       rows = map (\<lambda>(r, v). r @ [v]) (zip (rows ?old) ids)\<rparr>"
    using n by simp
  have cols: "columns (heap w2 ! df) = columns ?old @ [''Ensembl Gene ID'']"
    using n new by simp
  have "map butlast (map (\<lambda>(r, v). r @ [v]) (zip (rows ?old) ids)) = rows ?old"
    using n by (intro butlast_appended) simp
  then have rows: "map butlast (rows (heap w2 ! df)) = rows ?old"
    by (simp only: new new_eq dataframe.simps)
  have kept: "column (heap w2 ! df) c = column ?old c" if "c \<in> set (columns ?old)" for c
    unfolding new new_eq using wf that n by (intro column_kept) simp_all
  have others: "heap w2 ! a = heap w1 ! a" if "a \<noteq> df" for a
    using that heap by simp
  have before: "take (length (heap w)) (heap w1) = heap w"
    using s1 by (metis append_eq_conv_conj)
  have after: "take (length (heap w2)) (heap (snd (run svc accessions w))) = heap w2"
    using assms by (rule run_keeps)
  have len: "length (heap w2) = length (heap w1)"
    using heap by simp
  have stage3: "\<forall>ids. take (length (heap w2)) (heap (snd (get_gene_data svc ids w2))) = heap w2"
    by (simp add: get_gene_data_keeps)
  from same cols rows kept len others before stage3 after show ?thesis
    by blast
qed


theorem stage2_appends_in_place_witness:
  "get_protein_information good_service [''P12345'', ''Q8N726'', ''O00255''] world0 = (0, world1) \<and>
   get_ensembl_gene_ids good_service 0 world1 = (Inr 0, world2) \<and>
   columns (heap world2 ! 0) = columns (heap world1 ! 0) @ [''Ensembl Gene ID''] \<and>
   map butlast (rows (heap world2 ! 0)) = rows (heap world1 ! 0) \<and>
   column (heap world2 ! 0) ''Gene'' = column (heap world1 ! 0) ''Gene'' \<and>
   take (length (heap world2))
     (heap (snd (run good_service [''P12345'', ''Q8N726'', ''O00255''] world0))) =
     [example_xref_table]"
proof -
  note t = stage2_appends_in_place [OF stage1_good stage2_good]
  have g: "''Gene'' \<in> set (columns (heap world1 ! 0))"
    by (simp add: world1_def example_table_def protein_columns_def)
  have "column (heap world2 ! 0) ''Gene'' = column (heap world1 ! 0) ''Gene''"
    using t g by blast
  moreover have "take (length (heap world2))
     (heap (snd (run good_service [''P12345'', ''Q8N726'', ''O00255''] world0))) = heap world2"
    using t by blast
  moreover have "heap world2 = [example_xref_table]"
    by (simp add: world2_def)
  ultimately show ?thesis
    using t stage1_good stage2_good by simp
qed

section \<open>Stage 3: the annotation table\<close>

lemma gene_data_keys: "gene_data body i = Inr row \<Longrightarrow> map fst row = gene_columns"
  by (auto simp: gene_data_def gene_columns_def split: sum.splits)

lemma gene_data_spec:
  "spec_annotation body i = Some ga \<Longrightarrow>
   gene_data body i = Inr (zip gene_columns (annotation_cells ga))"
  by (cases i)
     (auto simp: spec_annotation_def gene_data_def gene_columns_def annotation_cells_def
        bind_eq_Some_conv getitem_key [symmetric] split: sum.splits)

lemma present_annotation:
  assumes "expected_shape body" and "present body i"
  shows "\<exists>ga. spec_annotation body i = Some ga \<and> ga_identifier ga = i"
proof -
  from assms(2) obtain k entry where i: "i = JStr k" and e: "dict_field body k = Some entry"
    by (cases i) (auto simp: present_def)
  from assms(1) e obtain kvs where body: "body = JObj kvs" and m: "map_of kvs k = Some entry"
    by (cases body) (auto simp: expected_shape_def dict_field_def)
  have "(k, entry) \<in> set kvs" using m by (rule map_of_SomeD)
  then have "dict_field entry ''description'' \<noteq> None \<and> dict_field entry ''seq_region_name'' \<noteq> None"
    using assms(1) by (auto simp: expected_shape_def body list_all_iff)
  then show ?thesis
    using e by (auto simp: spec_annotation_def i)
qed

lemma absent_fails:
  assumes "expected_shape body" and "\<not> present body i"
  shows "\<exists>err. gene_data body i = Inl err"
proof -
  from assms(1) obtain kvs where body: "body = JObj kvs"
    by (cases body) (auto simp: expected_shape_def)
  have "\<exists>err. py_getitem body i = Inl err"
    using assms(2) by (cases i) (auto simp: body present_def dict_field_def split: option.splits)
  then show ?thesis
    by (auto simp: gene_data_def split: sum.splits)
qed

lemma gene_loop_all:
  "\<forall>i \<in> set ids. \<exists>row. gene_data body i = Inr row \<Longrightarrow>
   gene_loop body ids data = Inr (data @ rights (map (gene_data body) ids))"
proof (induction ids arbitrary: data)
  case Nil
  show ?case by simp
next
  case (Cons i ids)
  then obtain row where row: "gene_data body i = Inr row" by auto
  show ?case using Cons by (simp add: row)
qed

lemma gene_loop_some_fails:
  "i \<in> set ids \<Longrightarrow> gene_data body i = Inl err \<Longrightarrow> \<exists>err'. gene_loop body ids data = Inl err'"
proof (induction ids arbitrary: data)
  case Nil
  then show ?case by simp
next
  case (Cons j ids)
  show ?case
  proof (cases "gene_data body j")
    case (Inl e)
    then show ?thesis by simp
  next
    case (Inr row)
    with Cons.prems have "i \<in> set ids" by auto
    from Cons.IH [OF this Cons.prems(2)] show ?thesis by (simp add: Inr)
  qed
qed

lemma gene_try_eq:
  "gene_try svc ids w =
     ((case answer (svc (length (sent w)) (Post_lookup ids)) of
         Inl err \<Rightarrow> Inl err | Inr body \<Rightarrow> gene_loop body ids []),
      w\<lparr>sent := sent w @ [Post_lookup ids]\<rparr>)"
  by (simp add: gene_try_def fetch_json_eq split: sum.splits)

text \<open>The table of stage 3 when every submitted identifier is a key of a well-shaped
  response.\<close>

lemma get_gene_data_all_present:
  assumes "answer (svc (length (sent w)) (Post_lookup ids)) = Inr body"
    and "expected_shape body" and "\<forall>i \<in> set ids. present body i"
  shows "get_gene_data svc ids w =
           (Inr (length (heap w)),
            w\<lparr>sent := sent w @ [Post_lookup ids],
              heap := heap w @
                [\<lparr>columns = (if ids = [] then [] else gene_columns),
                  rows = map (\<lambda>i. annotation_cells (the (spec_annotation body i))) ids\<rparr>]\<rparr>)"
proof -
  have each: "gene_data body i = Inr (zip gene_columns (annotation_cells (the (spec_annotation body i))))"
    if "i \<in> set ids" for i
    using present_annotation [OF assms(2), of i] assms(3) that gene_data_spec by fastforce
  then have "\<forall>i \<in> set ids. \<exists>row. gene_data body i = Inr row" by blast
  then have loop: "gene_loop body ids [] = Inr (rights (map (gene_data body) ids))"
    using gene_loop_all [of ids body "[]"] by simp
  have m: "map (gene_data body) ids =
        map (\<lambda>i. Inr (zip gene_columns (annotation_cells (the (spec_annotation body i))))) ids"
    using each by (intro map_cong) simp_all
  have r: "rights (map (\<lambda>x. Inr (f x)) xs) = map f xs"
    for f :: "json \<Rightarrow> (string \<times> json) list" and xs
    by (induction xs) simp_all
  have data: "rights (map (gene_data body) ids) =
      map (\<lambda>i. zip gene_columns (annotation_cells (the (spec_annotation body i)))) ids"
    unfolding m by (rule r)
  let ?data = "map (\<lambda>i. zip gene_columns (annotation_cells (the (spec_annotation body i)))) ids"
  have "DataFrame ?data =
        \<lparr>columns = (if ?data = [] then [] else gene_columns), rows = map (map snd) ?data\<rparr>"
    by (intro DataFrame_uniform) (auto simp: gene_columns_def annotation_cells_def)
  moreover have "map (map snd) ?data = map (\<lambda>i. annotation_cells (the (spec_annotation body i))) ids"
    by (simp add: gene_columns_def annotation_cells_def)
  ultimately have "DataFrame ?data =
        \<lparr>columns = (if ids = [] then [] else gene_columns),
         rows = map (\<lambda>i. annotation_cells (the (spec_annotation body i))) ids\<rparr>"
    by simp
  then show ?thesis
    by (simp add: get_gene_data_def gene_try_eq assms(1) loop data alloc_def)
qed

lemma get_gene_data_absent:
  assumes "answer (svc (length (sent w)) (Post_lookup ids)) = Inr body"
    and "expected_shape body" and "i \<in> set ids" and "\<not> present body i"
  shows "get_gene_data svc ids w = (Inl (SystemExit None), w\<lparr>sent := sent w @ [Post_lookup ids]\<rparr>)"
proof -
  from absent_fails [OF assms(2,4)] obtain err where "gene_data body i = Inl err" ..
  from gene_loop_some_fails [OF assms(3) this] obtain err' where "gene_loop body ids [] = Inl err'" ..
  then show ?thesis
    by (simp add: get_gene_data_def gene_try_eq assms(1))
qed


lemma present_hd:
  assumes "expected_shape body" and "present body i"
  shows "hd (annotation_cells (the (spec_annotation body i))) = i"
  using present_annotation [OF assms] by (auto simp: annotation_cells_def)

text \<open>
  C10. When the batched call succeeds (a good status and a body of the expected shape)
  and every submitted identifier is a key of the response, \<^verbatim>\<open>get_gene_data\<close>
  returns a table with one row per submitted identifier, in the order of the list, the
  identifier cell of each row being the submitted identifier; for the empty list the
  table is empty.
\<close>

theorem gene_rows_follow_input:
  assumes "answer (svc (length (sent w)) (Post_lookup ensembl_ids)) = Inr body"
    and "expected_shape body"
    and "\<forall>i \<in> set ensembl_ids. present body i"
  shows "\<exists>df w'. get_gene_data svc ensembl_ids w = (Inr df, w') \<and>
           length (rows (heap w' ! df)) = length ensembl_ids \<and>
           map hd (rows (heap w' ! df)) = ensembl_ids \<and>
           (ensembl_ids \<noteq> [] \<longrightarrow>
              column (heap w' ! df) ''Ensembl Gene ID'' = Inr ensembl_ids) \<and>
           (ensembl_ids = [] \<longrightarrow> heap w' ! df = \<lparr>columns = [], rows = []\<rparr>)"
proof -
  let ?rows = "map (\<lambda>i. annotation_cells (the (spec_annotation body i))) ensembl_ids"
  let ?t = "\<lparr>columns = (if ensembl_ids = [] then [] else gene_columns), rows = ?rows\<rparr>"
  let ?w' = "w\<lparr>sent := sent w @ [Post_lookup ensembl_ids], heap := heap w @ [?t]\<rparr>"
  have run: "get_gene_data svc ensembl_ids w = (Inr (length (heap w)), ?w')"
    using assms by (rule get_gene_data_all_present)
  have t: "heap ?w' ! length (heap w) = ?t" by simp
  have "ga_identifier (the (spec_annotation body i)) = i" if "i \<in> set ensembl_ids" for i
  proof -
    from assms(3) that have "present body i" by blast
    from present_annotation [OF assms(2) this] show ?thesis by auto
  qed
  then have "map (\<lambda>i. ga_identifier (the (spec_annotation body i))) ensembl_ids =
        map (\<lambda>i. i) ensembl_ids"
    by (intro map_cong) simp_all
  then have h: "map (\<lambda>i. ga_identifier (the (spec_annotation body i))) ensembl_ids = ensembl_ids"
    by simp
  have hd: "map hd ?rows = ensembl_ids"
    using h by (simp add: comp_def annotation_cells_def)
  have col: "column ?t ''Ensembl Gene ID'' = Inr ensembl_ids" if "ensembl_ids \<noteq> []"
    using that h by (simp add: column_def gene_columns_def comp_def annotation_cells_def)
  have props: "length (rows ?t) = length ensembl_ids \<and> map hd (rows ?t) = ensembl_ids \<and>
        (ensembl_ids \<noteq> [] \<longrightarrow> column ?t ''Ensembl Gene ID'' = Inr ensembl_ids) \<and>
        (ensembl_ids = [] \<longrightarrow> ?t = \<lparr>columns = [], rows = []\<rparr>)"
    using hd col by simp
  have "get_gene_data svc ensembl_ids w = (Inr (length (heap w)), ?w') \<and>
        length (rows (heap ?w' ! length (heap w))) = length ensembl_ids \<and>
        map hd (rows (heap ?w' ! length (heap w))) = ensembl_ids \<and>
        (ensembl_ids \<noteq> [] \<longrightarrow>
           column (heap ?w' ! length (heap w)) ''Ensembl Gene ID'' = Inr ensembl_ids) \<and>
        (ensembl_ids = [] \<longrightarrow> heap ?w' ! length (heap w) = \<lparr>columns = [], rows = []\<rparr>)"
    using run props by (simp only: t) simp
  then show ?thesis by (intro exI)
qed

lemma lookup_good:
  "answer (good_service n (Post_lookup ids)) = Inr lookup_body"
  by (simp add: answer_def good_service_def)

lemma lookup_body_shape: "expected_shape lookup_body"
  by (simp add: expected_shape_def lookup_body_def dict_field_def)

theorem gene_rows_follow_input_witness:
  "answer (good_service (length (sent world2))
     (Post_lookup [JStr ''ENSOCUG00000012296'', JStr ''ENSG00000133895''])) = Inr lookup_body \<and>
   expected_shape lookup_body \<and>
   present lookup_body (JStr ''ENSOCUG00000012296'') \<and>
   present lookup_body (JStr ''ENSG00000133895'') \<and>
   (\<exists>df w'. get_gene_data good_service [JStr ''ENSOCUG00000012296'', JStr ''ENSG00000133895''] world2 =
              (Inr df, w') \<and>
            map hd (rows (heap w' ! df)) = [JStr ''ENSOCUG00000012296'', JStr ''ENSG00000133895''] \<and>
            column (heap w' ! df) ''Ensembl Gene ID'' =
              Inr [JStr ''ENSOCUG00000012296'', JStr ''ENSG00000133895''])"
proof -
  let ?ids = "[JStr ''ENSOCUG00000012296'', JStr ''ENSG00000133895'']"
  have p: "\<forall>i \<in> set ?ids. present lookup_body i"
    by (simp add: present_def lookup_body_def dict_field_def)
  have a: "answer (good_service (length (sent world2)) (Post_lookup ?ids)) = Inr lookup_body"
    by (rule lookup_good)
  from gene_rows_follow_input [of good_service world2 ?ids lookup_body, OF a lookup_body_shape p]
  obtain df w' where
    "get_gene_data good_service ?ids world2 = (Inr df, w')"
    "map hd (rows (heap w' ! df)) = ?ids"
    "column (heap w' ! df) ''Ensembl Gene ID'' = Inr ?ids"
    by auto
  then have "\<exists>df w'. get_gene_data good_service ?ids world2 = (Inr df, w') \<and>
            map hd (rows (heap w' ! df)) = ?ids \<and>
            column (heap w' ! df) ''Ensembl Gene ID'' = Inr ?ids"
    by (intro exI conjI)
  moreover have "present lookup_body (JStr ''ENSOCUG00000012296'')"
    "present lookup_body (JStr ''ENSG00000133895'')"
    using p by simp_all
  ultimately show ?thesis
    using a lookup_body_shape by (intro conjI)
qed


text \<open>
  C5 (as amended). When the batched call succeeds, \<^verbatim>\<open>get_gene_data\<close> returns a
  table with one GeneAnnotation row (identifier, description, region name) for each
  submitted identifier, in order, provided that every submitted identifier is a key of
  the response; if a submitted identifier is not, the subscription raises inside the
  \<^verbatim>\<open>try\<close> block and the function ends the program instead of returning a table.
\<close>

theorem gene_rows_or_exit:
  assumes "answer (svc (length (sent w)) (Post_lookup ensembl_ids)) = Inr body"
    and "expected_shape body"
  shows "((\<forall>i \<in> set ensembl_ids. present body i) \<longrightarrow>
            (\<exists>df w'. get_gene_data svc ensembl_ids w = (Inr df, w') \<and>
               map Some (rows (heap w' ! df)) =
                 map (\<lambda>i. map_option annotation_cells (spec_annotation body i)) ensembl_ids \<and>
               (ensembl_ids \<noteq> [] \<longrightarrow> columns (heap w' ! df) = gene_columns))) \<and>
         ((\<exists>i \<in> set ensembl_ids. \<not> present body i) \<longrightarrow>
            get_gene_data svc ensembl_ids w =
              (Inl (SystemExit None), w\<lparr>sent := sent w @ [Post_lookup ensembl_ids]\<rparr>))"
proof (intro conjI impI)
  assume all: "\<forall>i \<in> set ensembl_ids. present body i"
  let ?rows = "map (\<lambda>i. annotation_cells (the (spec_annotation body i))) ensembl_ids"
  let ?t = "\<lparr>columns = (if ensembl_ids = [] then [] else gene_columns), rows = ?rows\<rparr>"
  let ?w' = "w\<lparr>sent := sent w @ [Post_lookup ensembl_ids], heap := heap w @ [?t]\<rparr>"
  have run: "get_gene_data svc ensembl_ids w = (Inr (length (heap w)), ?w')"
    using assms all by (rule get_gene_data_all_present)
  have t: "heap ?w' ! length (heap w) = ?t" by simp
  have "Some (annotation_cells (the (spec_annotation body i))) =
        map_option annotation_cells (spec_annotation body i)" if "i \<in> set ensembl_ids" for i
  proof -
    from all that have "present body i" by blast
    from present_annotation [OF assms(2) this] show ?thesis by auto
  qed
  then have "map (\<lambda>i. Some (annotation_cells (the (spec_annotation body i)))) ensembl_ids =
             map (\<lambda>i. map_option annotation_cells (spec_annotation body i)) ensembl_ids"
    by (intro map_cong) simp_all
  then have props: "map Some (rows ?t) =
                 map (\<lambda>i. map_option annotation_cells (spec_annotation body i)) ensembl_ids \<and>
               (ensembl_ids \<noteq> [] \<longrightarrow> columns ?t = gene_columns)"
    by (simp add: comp_def)
  have "get_gene_data svc ensembl_ids w = (Inr (length (heap w)), ?w') \<and>
        map Some (rows (heap ?w' ! length (heap w))) =
          map (\<lambda>i. map_option annotation_cells (spec_annotation body i)) ensembl_ids \<and>
        (ensembl_ids \<noteq> [] \<longrightarrow> columns (heap ?w' ! length (heap w)) = gene_columns)"
    using run props by (simp only: t) simp
  then show "\<exists>df w'. get_gene_data svc ensembl_ids w = (Inr df, w') \<and>
               map Some (rows (heap w' ! df)) =
                 map (\<lambda>i. map_option annotation_cells (spec_annotation body i)) ensembl_ids \<and>
               (ensembl_ids \<noteq> [] \<longrightarrow> columns (heap w' ! df) = gene_columns)"
    by (intro exI)
next
  assume "\<exists>i \<in> set ensembl_ids. \<not> present body i"
  then obtain i where "i \<in> set ensembl_ids" "\<not> present body i" by blast
  with assms show "get_gene_data svc ensembl_ids w =
      (Inl (SystemExit None), w\<lparr>sent := sent w @ [Post_lookup ensembl_ids]\<rparr>)"
    by (rule get_gene_data_absent)
qed

theorem gene_rows_or_exit_witness:
  "answer (good_service (length (sent world2))
     (Post_lookup [JStr ''ENSOCUG00000012296'', JStr ''ENSG00000133895''])) = Inr lookup_body \<and>
   expected_shape lookup_body \<and>
   present lookup_body (JStr ''ENSOCUG00000012296'') \<and>
   present lookup_body (JStr ''ENSG00000133895'') \<and>
   (\<exists>df w'. get_gene_data good_service [JStr ''ENSOCUG00000012296'', JStr ''ENSG00000133895''] world2 =
              (Inr df, w') \<and>
            rows (heap w' ! df) =
              [[JStr ''ENSOCUG00000012296'', JStr ''glutamic-oxaloacetic transaminase 2'', JStr ''5''],
               [JStr ''ENSG00000133895'', JStr ''menin 1'', JStr ''11'']] \<and>
            columns (heap w' ! df) = gene_columns)"
proof -
  let ?ids = "[JStr ''ENSOCUG00000012296'', JStr ''ENSG00000133895'']"
  have p: "\<forall>i \<in> set ?ids. present lookup_body i"
    by (simp add: present_def lookup_body_def dict_field_def)
  have a: "answer (good_service (length (sent world2)) (Post_lookup ?ids)) = Inr lookup_body"
    by (rule lookup_good)
  have cells: "map (\<lambda>i. map_option annotation_cells (spec_annotation lookup_body i)) ?ids =
      map Some
        [[JStr ''ENSOCUG00000012296'', JStr ''glutamic-oxaloacetic transaminase 2'', JStr ''5''],
         [JStr ''ENSG00000133895'', JStr ''menin 1'', JStr ''11'']]"
    by (simp add: spec_annotation_def annotation_cells_def lookup_body_def dict_field_def)
  from gene_rows_or_exit [of good_service world2 ?ids lookup_body, OF a lookup_body_shape] p
  obtain df w' where
    run: "get_gene_data good_service ?ids world2 = (Inr df, w')"
    and rows: "map Some (rows (heap w' ! df)) =
       map (\<lambda>i. map_option annotation_cells (spec_annotation lookup_body i)) ?ids"
    and cols: "columns (heap w' ! df) = gene_columns"
    by auto
  have "rows (heap w' ! df) =
      [[JStr ''ENSOCUG00000012296'', JStr ''glutamic-oxaloacetic transaminase 2'', JStr ''5''],
       [JStr ''ENSG00000133895'', JStr ''menin 1'', JStr ''11'']]"
    using rows [unfolded cells] by (rule map_injective) simp
  with run cols have "\<exists>df w'. get_gene_data good_service ?ids world2 = (Inr df, w') \<and>
            rows (heap w' ! df) =
              [[JStr ''ENSOCUG00000012296'', JStr ''glutamic-oxaloacetic transaminase 2'', JStr ''5''],
               [JStr ''ENSG00000133895'', JStr ''menin 1'', JStr ''11'']] \<and>
            columns (heap w' ! df) = gene_columns"
    by (intro exI conjI)
  moreover have "present lookup_body (JStr ''ENSOCUG00000012296'')"
    "present lookup_body (JStr ''ENSG00000133895'')"
    using p by simp_all
  ultimately show ?thesis
    using a lookup_body_shape by (intro conjI)
qed

theorem absent_identifier_exits:
  "answer (good_service (length (sent world0))
     (Post_lookup [JStr ''ENSOCUG00000012296'', JStr ''ENSG00000000001''])) = Inr lookup_body \<and>
   expected_shape lookup_body \<and>
   present lookup_body (JStr ''ENSOCUG00000012296'') \<and>
   \<not> present lookup_body (JStr ''ENSG00000000001'') \<and>
   get_gene_data good_service [JStr ''ENSOCUG00000012296'', JStr ''ENSG00000000001''] world0 =
     (Inl (SystemExit None),
      world0\<lparr>sent := [Post_lookup [JStr ''ENSOCUG00000012296'', JStr ''ENSG00000000001'']]\<rparr>)"
proof -
  have "get_gene_data good_service [JStr ''ENSOCUG00000012296'', JStr ''ENSG00000000001''] world0 =
     (Inl (SystemExit None),
      world0\<lparr>sent := [Post_lookup [JStr ''ENSOCUG00000012296'', JStr ''ENSG00000000001'']]\<rparr>)"
    by (simp add: get_gene_data_def gene_try_def fetch_json_def send_def good_service_def
          lookup_body_def gene_data_def world0_def)
  moreover have "present lookup_body (JStr ''ENSOCUG00000012296'')"
    "\<not> present lookup_body (JStr ''ENSG00000000001'')"
    by (simp_all add: present_def lookup_body_def dict_field_def)
  ultimately show ?thesis
    using lookup_good lookup_body_shape by (intro conjI)
qed

section \<open>Failure of the batched call\<close>

lemma get_protein_information_files:
  "get_protein_information svc accs w = (df, w1) \<Longrightarrow> files w1 = files w"
  by (auto simp: get_protein_information_eq)

lemma stage1_lookup_down:
  "get_protein_information lookup_down_service [''P12345'', ''Q8N726'', ''O00255''] world0 = (0, world1)"
  by (simp add: eval_defs)

lemma stage2_lookup_down: "get_ensembl_gene_ids lookup_down_service 0 world1 = (Inr 0, world2)"
  by (simp add: eval_defs)

lemma ids_world2:
  "column (heap world2 ! 0) ''Ensembl Gene ID'' =
     Inr [JStr ''ENSOCUG00000012296'', JStr ''ENSG00000133895'']"
  by (simp add: column_def world2_def example_xref_table_def protein_columns_def)

lemma batch_lookup_down:
  "gene_try lookup_down_service ids world2 =
     (Inl HTTPError, world2\<lparr>sent := sent world2 @ [Post_lookup ids]\<rparr>)"
  by (simp add: gene_try_eq answer_def lookup_down_service_def)

text \<open>
  C1 (as amended). If the batched annotation call raises, the script ends at once:
  \<^verbatim>\<open>get_gene_data\<close> calls \<^verbatim>\<open>sys.exit()\<close> without an argument, so the exit status
  is 0; nothing is requested, merged or written after the failed call, and the files are
  those from before the run.
\<close>

theorem batch_failure_exits:
  assumes "get_protein_information svc accessions w = (df, w1)"
    and "get_ensembl_gene_ids svc df w1 = (Inr df', w2)"
    and "column (heap w2 ! df') ''Ensembl Gene ID'' = Inr ensembl_ids"
    and "gene_try svc ensembl_ids w2 = (Inl err, w3)"
  shows "run svc accessions w = (Inl (SystemExit None), w3) \<and>
         exit_status (fst (run svc accessions w)) = 0 \<and>
         files w3 = files w \<and>
         heap w3 = heap w2 \<and>
         sent w3 = sent w2 @ [Post_lookup ensembl_ids]"
proof -
  have stage3: "get_gene_data svc ensembl_ids w2 = (Inl (SystemExit None), w3)"
    by (simp add: get_gene_data_def assms(4))
  have run: "run svc accessions w = (Inl (SystemExit None), w3)"
    by (simp add: run_def assms(1,2,3) stage3)
  have f1: "files w1 = files w"
    using assms(1) by (rule get_protein_information_files)
  have f2: "files w2 = files w1"
    using get_ensembl_gene_ids_files [of svc df w1] by (simp add: assms(2))
  note f3 = gene_try_frame [OF assms(4)]
  show ?thesis
    using run f1 f2 f3 by simp
qed

theorem batch_failure_exits_witness:
  "get_protein_information lookup_down_service [''P12345'', ''Q8N726'', ''O00255''] world0 =
     (0, world1) \<and>
   get_ensembl_gene_ids lookup_down_service 0 world1 = (Inr 0, world2) \<and>
   column (heap world2 ! 0) ''Ensembl Gene ID'' =
     Inr [JStr ''ENSOCUG00000012296'', JStr ''ENSG00000133895''] \<and>
   gene_try lookup_down_service [JStr ''ENSOCUG00000012296'', JStr ''ENSG00000133895''] world2 =
     (Inl HTTPError,
      world2\<lparr>sent := sent world2 @
        [Post_lookup [JStr ''ENSOCUG00000012296'', JStr ''ENSG00000133895'']]\<rparr>) \<and>
   run lookup_down_service [''P12345'', ''Q8N726'', ''O00255''] world0 =
     (Inl (SystemExit None),
      world2\<lparr>sent := sent world2 @
        [Post_lookup [JStr ''ENSOCUG00000012296'', JStr ''ENSG00000133895'']]\<rparr>) \<and>
   files (world2\<lparr>sent := sent world2 @
        [Post_lookup [JStr ''ENSOCUG00000012296'', JStr ''ENSG00000133895'']]\<rparr>) = files world0"
proof -
  note t = batch_failure_exits [OF stage1_lookup_down stage2_lookup_down ids_world2 batch_lookup_down]
  from t stage1_lookup_down stage2_lookup_down ids_world2 batch_lookup_down
  show ?thesis by (intro conjI) simp_all
qed

theorem batch_failure_exit_status_zero:
  "fst (gene_try lookup_down_service [JStr ''ENSOCUG00000012296'', JStr ''ENSG00000133895''] world2) =
     Inl HTTPError \<and>
   fst (main lookup_down_service world0) = Inl (SystemExit None) \<and>
   exit_status (fst (main lookup_down_service world0)) = 0"
proof -
  have "get_gene_data lookup_down_service [JStr ''ENSOCUG00000012296'', JStr ''ENSG00000133895''] world2 =
     (Inl (SystemExit None),
      world2\<lparr>sent := sent world2 @
        [Post_lookup [JStr ''ENSOCUG00000012296'', JStr ''ENSG00000133895'']]\<rparr>)"
    by (simp add: get_gene_data_def batch_lookup_down)
  then have "main lookup_down_service world0 =
     (Inl (SystemExit None),
      world2\<lparr>sent := sent world2 @
        [Post_lookup [JStr ''ENSOCUG00000012296'', JStr ''ENSG00000133895'']]\<rparr>)"
    by (simp add: main_def run_def stage1_lookup_down stage2_lookup_down ids_world2)
  then show ?thesis
    by (simp add: batch_lookup_down)
qed

section \<open>The merge\<close>

lemma left_rows_cases:
  "left_rows lk rk rn rrows l =
     (if \<exists>r \<in> set rrows. r ! rk = l ! lk
      then map (\<lambda>r. l @ drop_at rk r) (filter (\<lambda>r. r ! rk = l ! lk) rrows)
      else [l @ replicate (rn - 1) JNull])"
proof (cases "filter (\<lambda>r. r ! rk = l ! lk) rrows")
  case Nil
  then have "\<not> (\<exists>r \<in> set rrows. r ! rk = l ! lk)"
    by (simp add: filter_empty_conv)
  with Nil show ?thesis by (simp add: left_rows_def)
next
  case (Cons m ms)
  then have "m \<in> set (filter (\<lambda>r. r ! rk = l ! lk) rrows)" by simp
  then have "\<exists>r \<in> set rrows. r ! rk = l ! lk" by auto
  with Cons show ?thesis by (simp add: left_rows_def)
qed

lemma left_rows_prefix:
  "m \<in> set (left_rows lk rk rn rrows l) \<Longrightarrow> take (length l) m = l"
  by (auto simp: left_rows_cases split: if_splits)

lemma left_rows_nonempty: "left_rows lk rk rn rrows l \<noteq> []"
  by (auto simp: left_rows_cases filter_empty_conv)

lemma left_rows_matched:
  "r \<in> set rrows \<Longrightarrow> r ! rk = l ! lk \<Longrightarrow> l @ drop_at rk r \<in> set (left_rows lk rk rn rrows l)"
  by (auto simp: left_rows_cases)

lemma left_rows_unmatched:
  "\<forall>r \<in> set rrows. r ! rk \<noteq> l ! lk \<Longrightarrow>
   left_rows lk rk rn rrows l = [l @ replicate (rn - 1) JNull]"
  by (auto simp: left_rows_cases)

lemma right_only_rows_mem:
  "r \<in> set rrows \<Longrightarrow> \<forall>l \<in> set lrows. l ! lk \<noteq> r ! rk \<Longrightarrow>
   (replicate ln JNull)[lk := r ! rk] @ drop_at rk r \<in> set (right_only_rows lk rk ln lrows rrows)"
proof -
  assume r: "r \<in> set rrows" and no: "\<forall>l \<in> set lrows. l ! lk \<noteq> r ! rk"
  have "r ! rk \<notin> set (map (\<lambda>l. l ! lk) lrows)"
    using no by auto
  with r have "r \<in> set (filter (\<lambda>r. r ! rk \<notin> set (map (\<lambda>l. l ! lk) lrows)) rrows)"
    by simp
  then show ?thesis
    unfolding right_only_rows_def set_map by (rule imageI)
qed

lemma merge_outer_rows:
  assumes "merge_outer left right key = Inr merged"
  shows "key \<in> set (columns left) \<and> key \<in> set (columns right) \<and>
         columns merged = merge_columns (columns left) (columns right) key \<and>
         set (rows merged) =
           (\<Union>l \<in> set (rows left).
              set (left_rows (position key (columns left)) (position key (columns right))
                     (length (columns right)) (rows right) l)) \<union>
           set (right_only_rows (position key (columns left)) (position key (columns right))
                  (length (columns left)) (rows left) (rows right))"
  using assms by (auto simp: merge_outer_def Let_def split: if_splits)


lemma right_only_rows_shape:
  "m \<in> set (right_only_rows lk rk ln lrows rrows) \<Longrightarrow>
   \<exists>r \<in> set rrows. m = (replicate ln JNull)[lk := r ! rk] @ drop_at rk r"
  by (auto simp: right_only_rows_def)

lemma merge_outer_is_outer_join:
  assumes "wf_frame left" and "merge_outer left right key = Inr merged"
  shows "spec_outer_join left right key merged"
proof -
  let ?lk = "position key (columns left)"
  let ?rk = "position key (columns right)"
  let ?ln = "length (columns left)"
  let ?rn = "length (columns right)"
  note m = merge_outer_rows [OF assms(2)]
  from m have rows: "set (rows merged) =
      (\<Union>l \<in> set (rows left). set (left_rows ?lk ?rk ?rn (rows right) l)) \<union>
      set (right_only_rows ?lk ?rk ?ln (rows left) (rows right))"
    by blast
  from m have lk: "?lk < ?ln" by (simp add: position_less)
  have len: "length l = ?ln" if "l \<in> set (rows left)" for l
    using assms(1) that by (simp add: wf_frame_def list_all_iff)
  have a: "\<exists>m \<in> set (rows merged). take ?ln m = l" if l: "l \<in> set (rows left)" for l
  proof -
    obtain m where mm: "m \<in> set (left_rows ?lk ?rk ?rn (rows right) l)"
      using left_rows_nonempty [of ?lk ?rk ?rn "rows right" l] by (meson last_in_set)
    then have "take (length l) m = l" by (rule left_rows_prefix)
    moreover have "m \<in> set (rows merged)" using mm l rows by blast
    ultimately show ?thesis using len [OF l] by auto
  qed
  have c: "l @ replicate (?rn - 1) JNull \<in> set (rows merged)"
    if l: "l \<in> set (rows left)" and no: "\<forall>r \<in> set (rows right). r ! ?rk \<noteq> l ! ?lk" for l
  proof -
    have "l @ replicate (?rn - 1) JNull \<in> set (left_rows ?lk ?rk ?rn (rows right) l)"
      using left_rows_unmatched [OF no] by simp
    then show ?thesis using l rows by blast
  qed
  have d: "(replicate ?ln JNull)[?lk := r ! ?rk] @ drop_at ?rk r \<in> set (rows merged)"
    if r: "r \<in> set (rows right)" and no: "\<forall>l \<in> set (rows left). l ! ?lk \<noteq> r ! ?rk" for r
    using right_only_rows_mem [OF r no] rows by blast
  have b: "\<exists>m \<in> set (rows merged). m ! ?lk = r ! ?rk \<and> drop ?ln m = drop_at ?rk r"
    if r: "r \<in> set (rows right)" for r
  proof (cases "\<exists>l \<in> set (rows left). l ! ?lk = r ! ?rk")
    case True
    then obtain l where l: "l \<in> set (rows left)" and eq: "l ! ?lk = r ! ?rk" by blast
    have "l @ drop_at ?rk r \<in> set (left_rows ?lk ?rk ?rn (rows right) l)"
      using r eq by (intro left_rows_matched) simp_all
    then have "l @ drop_at ?rk r \<in> set (rows merged)" using l rows by blast
    moreover have "(l @ drop_at ?rk r) ! ?lk = r ! ?rk"
      using len [OF l] lk eq by (simp add: nth_append)
    moreover have "drop ?ln (l @ drop_at ?rk r) = drop_at ?rk r"
      using len [OF l] by simp
    ultimately show ?thesis by blast
  next
    case False
    then have no: "\<forall>l \<in> set (rows left). l ! ?lk \<noteq> r ! ?rk" by blast
    let ?m = "(replicate ?ln JNull)[?lk := r ! ?rk] @ drop_at ?rk r"
    have "?m \<in> set (rows merged)" using r no by (rule d)
    moreover have "?m ! ?lk = r ! ?rk" using lk by (simp add: nth_append)
    moreover have "drop ?ln ?m = drop_at ?rk r" by simp
    ultimately show ?thesis by blast
  qed
  from a b c d show ?thesis
    unfolding spec_outer_join_def by blast
qed


text \<open>The script exports the merge of the table of stage 2 with the table of stage 3.\<close>

lemma run_exports_merge:
  assumes "get_protein_information svc accessions w = (df, w1)"
    and "get_ensembl_gene_ids svc df w1 = (Inr df', w2)"
    and "column (heap w2 ! df') ''Ensembl Gene ID'' = Inr ensembl_ids"
    and "get_gene_data svc ensembl_ids w2 = (Inr g, w3)"
    and "merge_outer (heap w3 ! df') (heap w3 ! g) ''Ensembl Gene ID'' = Inr merged"
  shows "run svc accessions w =
           (Inr (), w3\<lparr>heap := heap w3 @ [merged],
                       files := (files w3)(''protein_gene_analysis.xlsx'' \<mapsto> merged)\<rparr>)"
  by (simp add: run_def assms alloc_def to_excel_def)

lemma gene_loop_rows:
  "gene_loop body ids data = Inr data' \<Longrightarrow>
   \<exists>new. data' = data @ new \<and> length new = length ids \<and>
         (\<forall>row \<in> set new. map fst row = gene_columns)"
proof (induction ids arbitrary: data)
  case Nil
  then show ?case by simp
next
  case (Cons i ids)
  from Cons.prems obtain row where row: "gene_data body i = Inr row"
    and rest: "gene_loop body ids (data @ [row]) = Inr data'"
    by (auto split: sum.splits)
  from Cons.IH [OF rest] obtain new where
    new: "data' = (data @ [row]) @ new" "length new = length ids"
      "\<forall>r \<in> set new. map fst r = gene_columns"
    by blast
  have "map fst row = gene_columns" using row by (rule gene_data_keys)
  with new have "data' = data @ (row # new) \<and> length (row # new) = length (i # ids) \<and>
      (\<forall>r \<in> set (row # new). map fst r = gene_columns)"
    by simp
  then show ?case by blast
qed

text \<open>The table of stage 3, whenever the function returns one.\<close>

lemma stage3_table:
  assumes "get_gene_data svc ids w = (Inr g, w3)"
  shows "g = length (heap w) \<and> heap w3 = heap w @ [heap w3 ! g] \<and>
         columns (heap w3 ! g) = (if ids = [] then [] else gene_columns) \<and>
         length (rows (heap w3 ! g)) = length ids \<and> files w3 = files w"
proof -
  from assms obtain data w' where tr: "gene_try svc ids w = (Inr data, w')"
    and g: "g = length (heap w')" and w3: "w3 = w'\<lparr>heap := heap w' @ [DataFrame data]\<rparr>"
    by (auto simp: get_gene_data_def alloc_def split: sum.splits prod.splits)
  note f = gene_try_frame [OF tr]
  from tr obtain body where "gene_loop body ids [] = Inr data"
    by (auto simp: gene_try_eq split: sum.splits)
  from gene_loop_rows [OF this] have len: "length data = length ids"
    and keys: "\<forall>row \<in> set data. map fst row = gene_columns"
    by auto
  have "distinct gene_columns" by (simp add: gene_columns_def)
  with keys have t: "DataFrame data =
      \<lparr>columns = (if data = [] then [] else gene_columns), rows = map (map snd) data\<rparr>"
    by (intro DataFrame_uniform)
  have e: "data = [] \<longleftrightarrow> ids = []" using len by auto
  have at: "heap w3 ! g = DataFrame data" by (simp add: g w3)
  show ?thesis
    unfolding at using f len e by (simp add: g w3 t)
qed

text \<open>The table of stage 2, whenever the function returns the table of stage 1.\<close>

lemma stage2_table:
  assumes "get_protein_information svc accs w = (df, w1)"
    and "get_ensembl_gene_ids svc df w1 = (Inr df', w2)"
  shows "df' = df \<and> df < length (heap w2) \<and> wf_frame (heap w2 ! df) \<and>
         ''Ensembl Gene ID'' \<in> set (columns (heap w2 ! df)) \<and>
         rows (heap w2 ! df) \<noteq> [] \<and> files w2 = files w"
proof -
  let ?old = "heap w1 ! df"
  let ?rs = "rights (protein_outcomes svc (length (sent w)) accs)"
  note s1 = stage1_table [OF assms(1)]
  from get_ensembl_gene_ids_Inr [OF assms(2)] obtain ids new where
    same: "df' = df"
    and set: "set_column ?old ''Ensembl Gene ID'' ids = Inr new"
    and le: "length ids \<le> length (rows ?old)"
    and heap: "heap w2 = (heap w1)[df := new]"
    and org: "''Organism (Scientific)'' \<in> set (columns ?old)"
    by blast
  have valid: "df < length (heap w1)"
    using s1 by (metis length_append_singleton lessI)
  have new: "heap w2 ! df = new" using heap valid by simp
  from s1 have fresh: "''Ensembl Gene ID'' \<notin> set (columns ?old)" and wf: "wf_frame ?old"
    by blast+
  note n = set_column_new [OF fresh set le]
  have old: "?old = \<lparr>columns = (if ?rs = [] then [] else protein_columns),
                      rows = map (map snd) ?rs\<rparr>"
    using assms(1) by (auto simp: get_protein_information_eq)
  have "?rs \<noteq> []"
    using org unfolding old by (auto split: if_splits)
  then have rows_old: "rows ?old \<noteq> []"
    unfolding old by simp
  have rows_new: "rows new \<noteq> []"
    using n rows_old by (cases "rows ?old"; cases ids) auto
  have "length r = length (columns new)" if "r \<in> set (rows new)" for r
  proof -
    from that n obtain r0 v where "r = r0 @ [v]" "r0 \<in> set (rows ?old)"
      by (auto dest: set_zip_leftD)
    moreover from this wf have "length r0 = length (columns ?old)"
      by (simp add: wf_frame_def list_all_iff)
    ultimately show ?thesis using n by simp
  qed
  then have wf_new: "wf_frame new"
    by (simp add: wf_frame_def list_all_iff)
  have key: "''Ensembl Gene ID'' \<in> set (columns new)" using n by simp
  have f1: "files w1 = files w"
    using assms(1) by (rule get_protein_information_files)
  have f2: "files w2 = files w1"
    using get_ensembl_gene_ids_files [of svc df w1] by (simp add: assms(2))
  have "df < length (heap w2)" using heap valid by simp
  with same wf_new key rows_new f1 f2 show ?thesis
    unfolding new by simp
qed


lemma merge_ABCD:
  "merge_outer crossref_ABC annotation_BCD ''Ensembl Gene ID'' = Inr merged_ABCD"
  by (simp add: merge_outer_def merge_columns_def left_rows_def right_only_rows_def drop_at_def
        crossref_ABC_def annotation_BCD_def merged_ABCD_def protein_columns_def gene_columns_def)

text \<open>
  C6. The final merge of the script is the outer join of the table of stage 2 with the
  table of stage 3 on \<open>Ensembl Gene ID\<close>: when the three stages have returned their
  tables, the merge of these two tables on that label succeeds, the script runs to its
  end and the file it writes holds the merged table. An outer join keeps every row of
  either table: a left row as the left part of a merged row, a right row as the key
  cell and the right part of one; a left row without a matching identifier on the right
  has nulls in the right columns, a right row without a matching identifier on the left
  has nulls in the left columns but the key. This holds of the merge of any two tables,
  and for cross-reference rows A, B, C and annotation rows B, C, D the merged rows are
  A, B, C, D, with the annotation cells of A null and the protein cells of D null.
\<close>

theorem outer_merge_keeps_rows:
  assumes "get_protein_information svc accessions w = (df, w1)"
    and "get_ensembl_gene_ids svc df w1 = (Inr df', w2)"
    and "column (heap w2 ! df') ''Ensembl Gene ID'' = Inr ensembl_ids"
    and "get_gene_data svc ensembl_ids w2 = (Inr g, w3)"
  shows "(\<exists>merged.
            merge_outer (heap w2 ! df') (heap w3 ! g) ''Ensembl Gene ID'' = Inr merged \<and>
            spec_outer_join (heap w2 ! df') (heap w3 ! g) ''Ensembl Gene ID'' merged \<and>
            run svc accessions w =
              (Inr (), w3\<lparr>heap := heap w3 @ [merged],
                          files := (files w)(''protein_gene_analysis.xlsx'' \<mapsto> merged)\<rparr>)) \<and>
         (\<forall>left right key merged.
            wf_frame left \<and> merge_outer left right key = Inr merged \<longrightarrow>
            spec_outer_join left right key merged) \<and>
         merge_outer crossref_ABC annotation_BCD ''Ensembl Gene ID'' = Inr merged_ABCD \<and>
         spec_outer_join crossref_ABC annotation_BCD ''Ensembl Gene ID'' merged_ABCD"
proof -
  let ?key = "''Ensembl Gene ID''"
  note s2 = stage2_table [OF assms(1,2)]
  from s2 have same: "df' = df" by blast
  let ?left = "heap w2 ! df'"
  from s2 same have valid: "df' < length (heap w2)" and wf: "wf_frame ?left"
    and lkey: "?key \<in> set (columns ?left)" and rows: "rows ?left \<noteq> []"
    and f2: "files w2 = files w"
    by blast+
  have "length ensembl_ids = length (rows ?left)"
    using assms(3) by (rule column_length)
  with rows have ids: "ensembl_ids \<noteq> []" by auto
  note s3 = stage3_table [OF assms(4)]
  let ?right = "heap w3 ! g"
  from s3 have "columns ?right = (if ensembl_ids = [] then [] else gene_columns)"
    by blast
  with ids have "columns ?right = gene_columns" by simp
  then have rkey: "?key \<in> set (columns ?right)"
    by (simp only: gene_columns_def) simp
  from s3 have h3: "heap w3 = heap w2 @ [?right]" and f3: "files w3 = files w2"
    by blast+
  have left3: "heap w3 ! df' = ?left"
    using valid by (subst h3) (simp add: nth_append)
  obtain merged where merged: "merge_outer ?left ?right ?key = Inr merged"
    using lkey rkey by (simp add: merge_outer_def Let_def)
  have join: "spec_outer_join ?left ?right ?key merged"
    using wf merged by (rule merge_outer_is_outer_join)
  have "merge_outer (heap w3 ! df') ?right ?key = Inr merged"
    using merged by (simp only: left3)
  from run_exports_merge [OF assms this]
  have run: "run svc accessions w =
      (Inr (), w3\<lparr>heap := heap w3 @ [merged],
                  files := (files w)(''protein_gene_analysis.xlsx'' \<mapsto> merged)\<rparr>)"
    by (simp only: f3 f2)
  have general: "\<forall>left right key merged.
            wf_frame left \<and> merge_outer left right key = Inr merged \<longrightarrow>
            spec_outer_join left right key merged"
    using merge_outer_is_outer_join by blast
  have "wf_frame crossref_ABC"
    by (simp add: wf_frame_def crossref_ABC_def protein_columns_def)
  then have abcd: "spec_outer_join crossref_ABC annotation_BCD ?key merged_ABCD"
    using merge_ABCD by (rule merge_outer_is_outer_join)
  from merged join run have "\<exists>merged.
            merge_outer ?left ?right ?key = Inr merged \<and>
            spec_outer_join ?left ?right ?key merged \<and>
            run svc accessions w =
              (Inr (), w3\<lparr>heap := heap w3 @ [merged],
                          files := (files w)(''protein_gene_analysis.xlsx'' \<mapsto> merged)\<rparr>)"
    by (intro exI conjI)
  with general merge_ABCD abcd show ?thesis
    by (intro conjI)
qed


lemma stage3_good:
  "get_gene_data good_service [JStr ''ENSOCUG00000012296'', JStr ''ENSG00000133895''] world2 =
     (Inr 1, world3)"
  by (simp add: get_gene_data_def gene_try_def fetch_json_def send_def alloc_def gene_data_def
        DataFrame_def cell_of_def good_service_def lookup_body_def world2_def world3_def
        example_gene_table_def gene_columns_def)

lemma merge_good:
  "merge_outer (heap world2 ! 0) (heap world3 ! 1) ''Ensembl Gene ID'' = Inr example_merged"
  by (simp add: merge_outer_def merge_columns_def left_rows_def right_only_rows_def drop_at_def
        world2_def world3_def example_xref_table_def example_gene_table_def example_merged_def
        protein_columns_def gene_columns_def)

theorem outer_merge_keeps_rows_witness:
  "get_protein_information good_service [''P12345'', ''Q8N726'', ''O00255''] world0 = (0, world1) \<and>
   get_ensembl_gene_ids good_service 0 world1 = (Inr 0, world2) \<and>
   column (heap world2 ! 0) ''Ensembl Gene ID'' =
     Inr [JStr ''ENSOCUG00000012296'', JStr ''ENSG00000133895''] \<and>
   get_gene_data good_service [JStr ''ENSOCUG00000012296'', JStr ''ENSG00000133895''] world2 =
     (Inr 1, world3) \<and>
   merge_outer (heap world2 ! 0) (heap world3 ! 1) ''Ensembl Gene ID'' = Inr example_merged \<and>
   spec_outer_join (heap world2 ! 0) (heap world3 ! 1) ''Ensembl Gene ID'' example_merged \<and>
   run good_service [''P12345'', ''Q8N726'', ''O00255''] world0 =
     (Inr (), world3\<lparr>heap := heap world3 @ [example_merged],
                       files := (files world0)(''protein_gene_analysis.xlsx'' \<mapsto> example_merged)\<rparr>) \<and>
   wf_frame crossref_ABC \<and>
   merge_outer crossref_ABC annotation_BCD ''Ensembl Gene ID'' = Inr merged_ABCD \<and>
   [JStr ''P1'', JStr ''protein 1'', JStr ''G1'', JStr ''Homo sapiens'', JStr ''Human'',
    JInt 101, JStr ''A'', JNull, JNull] \<in> set (rows merged_ABCD) \<and>
   [JNull, JNull, JNull, JNull, JNull, JNull, JStr ''D'', JStr ''gene d'', JStr ''4'']
     \<in> set (rows merged_ABCD) \<and>
   (\<exists>m \<in> set (rows merged_ABCD).
      take 7 m = [JStr ''P2'', JStr ''protein 2'', JStr ''G2'', JStr ''Homo sapiens'',
                  JStr ''Human'', JInt 102, JStr ''B'']) \<and>
   (\<exists>m \<in> set (rows merged_ABCD).
      m ! 6 = JStr ''C'' \<and> drop 7 m = [JStr ''gene c'', JStr ''3''])"
proof -
  let ?key = "''Ensembl Gene ID''"
  note t = outer_merge_keeps_rows [OF stage1_good stage2_good ids_world2 stage3_good]
  from t obtain merged where
    m: "merge_outer (heap world2 ! 0) (heap world3 ! 1) ?key = Inr merged"
    and j: "spec_outer_join (heap world2 ! 0) (heap world3 ! 1) ?key merged"
    and r: "run good_service [''P12345'', ''Q8N726'', ''O00255''] world0 =
      (Inr (), world3\<lparr>heap := heap world3 @ [merged],
                        files := (files world0)(''protein_gene_analysis.xlsx'' \<mapsto> merged)\<rparr>)"
    by blast
  have "merged = example_merged" using m by (simp only: merge_good sum.inject)
  note j = j [unfolded this] and r = r [unfolded this]
  have wf: "wf_frame crossref_ABC"
    by (simp add: wf_frame_def crossref_ABC_def protein_columns_def)
  from t have abcd: "merge_outer crossref_ABC annotation_BCD ?key = Inr merged_ABCD" by blast
  from t wf abcd have "spec_outer_join crossref_ABC annotation_BCD ?key merged_ABCD" by blast
  note p = this [unfolded spec_outer_join_def]
  have lk: "position ?key (columns crossref_ABC) = 6"
    by (simp add: crossref_ABC_def protein_columns_def)
  have rk: "position ?key (columns annotation_BCD) = 0"
    by (simp add: annotation_BCD_def gene_columns_def)
  have ln: "length (columns crossref_ABC) = 7"
    by (simp add: crossref_ABC_def protein_columns_def)
  have rn: "length (columns annotation_BCD) = 3"
    by (simp add: annotation_BCD_def gene_columns_def)
  let ?a = "[JStr ''P1'', JStr ''protein 1'', JStr ''G1'', JStr ''Homo sapiens'', JStr ''Human'',
             JInt 101, JStr ''A'']"
  let ?b = "[JStr ''P2'', JStr ''protein 2'', JStr ''G2'', JStr ''Homo sapiens'', JStr ''Human'',
             JInt 102, JStr ''B'']"
  let ?c = "[JStr ''C'', JStr ''gene c'', JStr ''3'']"
  let ?d = "[JStr ''D'', JStr ''gene d'', JStr ''4'']"
  have a_in: "?a \<in> set (rows crossref_ABC)" and b_in: "?b \<in> set (rows crossref_ABC)"
    by (simp_all add: crossref_ABC_def)
  have c_in: "?c \<in> set (rows annotation_BCD)" and d_in: "?d \<in> set (rows annotation_BCD)"
    by (simp_all add: annotation_BCD_def)
  have a_alone: "\<forall>r \<in> set (rows annotation_BCD).
      r ! position ?key (columns annotation_BCD) \<noteq> ?a ! position ?key (columns crossref_ABC)"
    unfolding lk rk by (simp add: annotation_BCD_def)
  have d_alone: "\<forall>l \<in> set (rows crossref_ABC).
      l ! position ?key (columns crossref_ABC) \<noteq> ?d ! position ?key (columns annotation_BCD)"
    unfolding lk rk by (simp add: crossref_ABC_def)
  have "?a @ replicate (length (columns annotation_BCD) - 1) JNull \<in> set (rows merged_ABCD)"
    using p a_in a_alone by blast
  then have r1: "[JStr ''P1'', JStr ''protein 1'', JStr ''G1'', JStr ''Homo sapiens'', JStr ''Human'',
       JInt 101, JStr ''A'', JNull, JNull] \<in> set (rows merged_ABCD)"
    unfolding rn by (simp add: numeral_2_eq_2)
  have "(replicate (length (columns crossref_ABC)) JNull)
               [position ?key (columns crossref_ABC) := ?d ! position ?key (columns annotation_BCD)] @
            drop_at (position ?key (columns annotation_BCD)) ?d \<in> set (rows merged_ABCD)"
    using p d_in d_alone by blast
  then have r2: "[JNull, JNull, JNull, JNull, JNull, JNull, JStr ''D'', JStr ''gene d'', JStr ''4'']
        \<in> set (rows merged_ABCD)"
    unfolding lk rk ln by (simp add: drop_at_def eval_nat_numeral)
  have "\<exists>m \<in> set (rows merged_ABCD). take (length (columns crossref_ABC)) m = ?b"
    using p b_in by blast
  then have r3: "\<exists>m \<in> set (rows merged_ABCD). take 7 m = ?b"
    unfolding ln .
  have "\<exists>m \<in> set (rows merged_ABCD).
          m ! position ?key (columns crossref_ABC) = ?c ! position ?key (columns annotation_BCD) \<and>
          drop (length (columns crossref_ABC)) m = drop_at (position ?key (columns annotation_BCD)) ?c"
    using p c_in by blast
  then have r4: "\<exists>m \<in> set (rows merged_ABCD). m ! 6 = JStr ''C'' \<and> drop 7 m = [JStr ''gene c'', JStr ''3'']"
    unfolding lk rk ln by (simp add: drop_at_def)
  from stage1_good stage2_good ids_world2 stage3_good merge_good j r wf abcd r1 r2 r3 r4
  show ?thesis by (intro conjI)
qed

end
